theory Spec2Isabelle
  imports Complex_Main
begin

section \<open>Python values of the protocol\<close>

text \<open>
  The fleet protocol of \<^verbatim>\<open>src/agents/mesh_simulator.py\<close> and
  \<^verbatim>\<open>src/agents/vehicle_agent.py\<close> exchanges Python dictionaries. A dictionary
  entry is modelled by its three observable states: the key is missing, the key holds
  \<^verbatim>\<open>None\<close>, or the key holds a value of the type the protocol stores under it.
  Python floats are idealised as real numbers (all constants of the source are exactly
  representable), Python ints as \<open>int\<close> or \<open>nat\<close>.
\<close>

datatype error = AttributeError | TypeError

datatype 'a field = Absent | Null | Val 'a

text \<open>\<^verbatim>\<open>d.get(k)\<close>: \<^verbatim>\<open>None\<close> when the key is missing.\<close>

definition dict_get :: "'a field \<Rightarrow> 'a option" where
  "dict_get e = (case e of Val v \<Rightarrow> Some v | _ \<Rightarrow> None)"

text \<open>\<^verbatim>\<open>d.get(k, dflt)\<close>: the default replaces a missing key only, a stored
  \<^verbatim>\<open>None\<close> is returned as it is.\<close>

definition dict_get_default :: "'a field \<Rightarrow> 'a \<Rightarrow> 'a option" where
  "dict_get_default e dflt = (case e of Absent \<Rightarrow> Some dflt | Null \<Rightarrow> None | Val v \<Rightarrow> Some v)"

text \<open>The entry \<^verbatim>\<open>"k": x\<close> of a dictionary display, where \<^verbatim>\<open>x\<close> may be \<^verbatim>\<open>None\<close>.\<close>

definition entry :: "'a option \<Rightarrow> 'a field" where
  "entry x = (case x of None \<Rightarrow> Null | Some v \<Rightarrow> Val v)"

text \<open>The dictionary \<^verbatim>\<open>{"bid": ..., "holder": ...}\<close> carried under the key \<^verbatim>\<open>"best"\<close>.\<close>

record best_bid =
  bid :: "real field"
  holder :: "string field"

text \<open>
  A message (and the \<^verbatim>\<open>task_info\<close> argument of \<^verbatim>\<open>compute_bid\<close>) is a dictionary
  over the keys the source reads or writes; other keys are never looked at.
\<close>

record message =
  message_type :: "string field"
  task_id :: "string field"
  pickup :: "string field"
  delivery :: "string field"
  weight :: "real field"
  due_by :: "real field"
  path :: "string list field"
  best :: "best_bid field"
  winner :: "string field"
  backtrace_route :: "string list field"

text \<open>The empty dictionary \<^verbatim>\<open>{}\<close>.\<close>

definition empty_dict :: message where
  "empty_dict = \<lparr>message_type = Absent, task_id = Absent, pickup = Absent, delivery = Absent,
     weight = Absent, due_by = Absent, path = Absent, best = Absent, winner = Absent,
     backtrace_route = Absent\<rparr>"

text \<open>An argument that may fail \<^verbatim>\<open>isinstance(message, dict)\<close>.\<close>

datatype pyobj = NotDict | Dict message

text \<open>The \<^verbatim>\<open>network_info\<close> dictionary of \<^verbatim>\<open>compute_bid\<close>.\<close>

record network_info =
  current_edge :: "string field"
  current_time :: "real field"

section \<open>Vehicle agent\<close>

text \<open>
  The fields of \<^verbatim>\<open>VehicleAgent\<close> that the protocol reads or writes. An entry of
  \<^verbatim>\<open>assigned_tasks\<close> is the tuple \<^verbatim>\<open>(task_id, delivery)\<close> as read from a winner
  decision, either of which may be \<^verbatim>\<open>None\<close>.
\<close>

record agent =
  agent_id :: string
  capacity :: real
  battery :: real
  load :: real
  inbox :: "message list"
  assigned_tasks :: "(string option \<times> string option) list"
  completed_tasks :: nat

definition VERY_HIGH_BID :: real where
  "VERY_HIGH_BID = 9999999999"

text \<open>\<^verbatim>\<open>VehicleAgent.__init__\<close>\<close>

definition agent_init :: "string \<Rightarrow> real \<Rightarrow> real \<Rightarrow> agent" where
  "agent_init aid cap bat = \<lparr>agent_id = aid, capacity = cap, battery = bat, load = 0,
     inbox = [], assigned_tasks = [], completed_tasks = 0\<rparr>"

text \<open>\<^verbatim>\<open>VehicleAgent.receive\<close>\<close>

definition receive :: "pyobj \<Rightarrow> agent \<Rightarrow> agent" where
  "receive msg ag =
     (case msg of
        NotDict \<Rightarrow> ag
      | Dict m \<Rightarrow> if message_type m \<noteq> Absent then ag\<lparr>inbox := inbox ag @ [m]\<rparr> else ag)"

text \<open>\<^verbatim>\<open>VehicleAgent.has_capacity\<close>\<close>

definition has_capacity :: "agent \<Rightarrow> real \<Rightarrow> bool" where
  "has_capacity ag task_weight \<longleftrightarrow> load ag + task_weight \<le> capacity ag"

text \<open>\<^verbatim>\<open>VehicleAgent._calculate_base_cost\<close>: the placeholder of the source.\<close>

definition calculate_base_cost :: "string option \<Rightarrow> string option \<Rightarrow> network_info \<Rightarrow> real" where
  "calculate_base_cost cur_edge delivery_edge ni = 100"

text \<open>\<^verbatim>\<open>VehicleAgent._calculate_priority_multiplier\<close>\<close>

definition calculate_priority_multiplier :: "real \<Rightarrow> real" where
  "calculate_priority_multiplier w =
     (if w \<ge> 5 then 0.5 else if w \<ge> 2 then 1 else 1.5)"

text \<open>\<^verbatim>\<open>VehicleAgent._calculate_capacity_penalty\<close>\<close>

definition calculate_capacity_penalty :: "agent \<Rightarrow> real" where
  "calculate_capacity_penalty ag =
     (if capacity ag \<le> 0 then 1
      else let load_ratio = load ag / capacity ag in 1 + load_ratio * 2)"

text \<open>\<^verbatim>\<open>VehicleAgent._calculate_time_penalty\<close>. The current time is what
  \<^verbatim>\<open>network_info.get("current_time", 0)\<close> returned; adding \<^verbatim>\<open>None\<close> to a float raises.\<close>

definition calculate_time_penalty :: "message \<Rightarrow> real \<Rightarrow> real option \<Rightarrow> error + real" where
  "calculate_time_penalty task_info base_cost cur_time =
     (case dict_get (due_by task_info) of
        None \<Rightarrow> Inr 1
      | Some deadline \<Rightarrow>
          (case cur_time of
             None \<Rightarrow> Inl TypeError
           | Some now \<Rightarrow>
               let travel_time_estimate = base_cost / 10;
                   estimated_completion = now + travel_time_estimate;
                   time_remaining = deadline - estimated_completion
               in if time_remaining \<le> 0 then Inr (3 * 2)
                  else if time_remaining \<le> 100 then Inr 3
                  else if time_remaining \<le> 300 then Inr 1.5
                  else Inr 1))"

text \<open>\<^verbatim>\<open>VehicleAgent.compute_bid\<close>. \<^verbatim>\<open>float(None)\<close> raises.\<close>

definition compute_bid :: "agent \<Rightarrow> message \<Rightarrow> network_info \<Rightarrow> error + real" where
  "compute_bid ag task_info ni =
     (case dict_get_default (weight task_info) 0 of
        None \<Rightarrow> Inl TypeError
      | Some w \<Rightarrow>
          if \<not> has_capacity ag w then Inr VERY_HIGH_BID
          else
            let cur_edge = dict_get_default (current_edge ni) ''warehouse'';
                base_cost = calculate_base_cost cur_edge
                              (dict_get_default (delivery task_info) []) ni
            in if base_cost \<ge> VERY_HIGH_BID then Inr VERY_HIGH_BID
               else
                 let priority_mult = calculate_priority_multiplier w;
                     capacity_penalty = calculate_capacity_penalty ag
                 in (case calculate_time_penalty task_info base_cost
                            (dict_get_default (current_time ni) 0) of
                       Inl e \<Rightarrow> Inl e
                     | Inr time_penalty \<Rightarrow>
                         let b = base_cost * priority_mult * capacity_penalty * time_penalty
                         in Inr (min b VERY_HIGH_BID)))"

section \<open>Relay fabric\<close>

text \<open>
  The fields of \<^verbatim>\<open>MeshSimulator\<close> that the protocol reads or writes. The agent objects
  the fabric refers to are kept in the map \<open>agents\<close>, under the keys of the dictionary
  it was constructed with; a queue entry is the tuple \<^verbatim>\<open>(sender, message, sim_time)\<close>.
\<close>

record mesh =
  agents :: "string \<rightharpoonup> agent"
  ring :: "string list"
  message_queue :: "(string \<times> message \<times> int option) list"
  sod_assign_index :: nat

text \<open>\<^verbatim>\<open>MeshSimulator.__init__\<close>, on the items of the \<^verbatim>\<open>agents\<close> dictionary in
  insertion order (a dictionary has no key twice).\<close>

definition mesh_init :: "(string \<times> agent) list \<Rightarrow> mesh" where
  "mesh_init ags = \<lparr>agents = map_of ags, ring = map fst ags, message_queue = [],
     sod_assign_index = 0\<rparr>"

text \<open>\<^verbatim>\<open>MeshSimulator.send\<close>; \<^verbatim>\<open>deepcopy\<close> is the identity on values.\<close>

definition send :: "string \<Rightarrow> pyobj \<Rightarrow> int option \<Rightarrow> mesh \<Rightarrow> mesh" where
  "send sender_id msg sim_time f =
     (case msg of
        NotDict \<Rightarrow> f
      | Dict m \<Rightarrow>
          if message_type m = Absent then f
          else f\<lparr>message_queue := message_queue f @ [(sender_id, m, sim_time)]\<rparr>)"

text \<open>The recurring statement
  \<^verbatim>\<open>if receiver in self.agents: self.agents[receiver].receive(msg)\<close>.\<close>

definition deliver_to :: "string \<Rightarrow> message \<Rightarrow> mesh \<Rightarrow> mesh" where
  "deliver_to receiver msg f =
     (case agents f receiver of
        None \<Rightarrow> f
      | Some ag \<Rightarrow> f\<lparr>agents := (agents f)(receiver \<mapsto> receive (Dict msg) ag)\<rparr>)"

text \<open>\<^verbatim>\<open>str.startswith\<close>\<close>

definition startswith :: "string \<Rightarrow> string \<Rightarrow> bool" where
  "startswith s pre \<longleftrightarrow> take (length pre) s = pre"

text \<open>\<^verbatim>\<open>list.index\<close>: the first position of the element, \<open>None\<close> where Python
  raises \<^verbatim>\<open>ValueError\<close>.\<close>

fun list_index :: "'a list \<Rightarrow> 'a \<Rightarrow> nat option" where
  "list_index [] x = None"
| "list_index (y # ys) x =
     (if y = x then Some 0 else map_option Suc (list_index ys x))"

text \<open>The \<^verbatim>\<open>winner_msg\<close> dictionary of \<^verbatim>\<open>_assign_sod_task\<close>.\<close>

definition sod_winner_msg :: "message \<Rightarrow> string \<Rightarrow> message" where
  "sod_winner_msg msg w = empty_dict\<lparr>
     message_type := Val ''WINNER_DECISION'',
     task_id := entry (dict_get (task_id msg)),
     winner := Val w,
     pickup := entry (dict_get (pickup msg)),
     delivery := entry (dict_get (delivery msg)),
     weight := entry (dict_get (weight msg)),
     best := Val \<lparr>bid = Val 0, holder = Val w\<rparr>\<rparr>"

text \<open>\<^verbatim>\<open>MeshSimulator._assign_sod_task\<close>\<close>

definition assign_sod_task :: "message \<Rightarrow> int \<Rightarrow> mesh \<Rightarrow> mesh" where
  "assign_sod_task msg cur f =
     (if ring f = [] then f
      else
        let w = ring f ! (sod_assign_index f mod length (ring f));
            f1 = f\<lparr>sod_assign_index := sod_assign_index f + 1\<rparr>
        in deliver_to w (sod_winner_msg msg w) f1)"

text \<open>The \<^verbatim>\<open>forward_msg\<close> dictionary of \<^verbatim>\<open>_forward_to_ring\<close>.\<close>

definition ring_forward_msg :: "message \<Rightarrow> string \<Rightarrow> message" where
  "ring_forward_msg msg first_agent = empty_dict\<lparr>
     message_type := Val ''FORWARD_ANNOUNCEMENT'',
     task_id := entry (dict_get_default (task_id msg) []),
     pickup := entry (dict_get_default (pickup msg) []),
     delivery := entry (dict_get_default (delivery msg) []),
     weight := entry (dict_get_default (weight msg) 0),
     path := Val ([''warehouse''] @ [first_agent]),
     best := Val \<lparr>bid = Val VERY_HIGH_BID, holder = Null\<rparr>\<rparr>"

text \<open>\<^verbatim>\<open>MeshSimulator._forward_to_ring\<close>\<close>

definition forward_to_ring :: "message \<Rightarrow> int \<Rightarrow> mesh \<Rightarrow> mesh" where
  "forward_to_ring msg cur f =
     (if ring f = [] then f
      else
        let first_agent = ring f ! 0
        in deliver_to first_agent (ring_forward_msg msg first_agent) f)"

text \<open>\<^verbatim>\<open>MeshSimulator._handle_warehouse_announcement\<close>; \<^verbatim>\<open>None\<close> has no
  \<^verbatim>\<open>startswith\<close>.\<close>

definition handle_warehouse_announcement :: "message \<Rightarrow> int \<Rightarrow> mesh \<Rightarrow> error + mesh" where
  "handle_warehouse_announcement msg cur f =
     (case dict_get_default (task_id msg) [] of
        None \<Rightarrow> Inl AttributeError
      | Some tid \<Rightarrow>
          if startswith tid ''SOD-'' then Inr (assign_sod_task msg cur f)
          else Inr (forward_to_ring msg cur f))"

text \<open>\<^verbatim>\<open>MeshSimulator._find_next_in_ring\<close>\<close>

definition find_next_in_ring :: "string list \<Rightarrow> string \<Rightarrow> string list \<Rightarrow> string option" where
  "find_next_in_ring rng current p =
     (if current = ''warehouse'' then List.find (\<lambda>a. a \<notin> set p) rng
      else
        (case list_index rng current of
           None \<Rightarrow> None
         | Some idx \<Rightarrow>
             List.find (\<lambda>candidate. candidate \<notin> set p)
               (map (\<lambda>offset. rng ! ((idx + offset) mod length rng)) [1..<length rng + 1])))"

text \<open>The \<^verbatim>\<open>backtrace_path\<close> of \<^verbatim>\<open>_start_backtrace\<close>:
  \<^verbatim>\<open>list(reversed(path[idx:]))\<close> at the first index of the winner, or \<^verbatim>\<open>[winner]\<close>.\<close>

definition backtrace_path :: "string \<Rightarrow> string list \<Rightarrow> string list" where
  "backtrace_path w p =
     (case list_index p w of
        Some idx \<Rightarrow> rev (drop idx p)
      | None \<Rightarrow> [w])"

text \<open>The \<^verbatim>\<open>winner_msg\<close> dictionary of \<^verbatim>\<open>_start_backtrace\<close>.\<close>

definition backtrace_winner_msg :: "message \<Rightarrow> best_bid \<Rightarrow> string \<Rightarrow> string list \<Rightarrow> message" where
  "backtrace_winner_msg msg bst w route = empty_dict\<lparr>
     message_type := Val ''WINNER_DECISION'',
     task_id := entry (dict_get (task_id msg)),
     winner := Val w,
     pickup := entry (dict_get (pickup msg)),
     delivery := entry (dict_get (delivery msg)),
     weight := entry (dict_get (weight msg)),
     best := Val bst,
     backtrace_route := Val route\<rparr>"

text \<open>
  \<^verbatim>\<open>MeshSimulator._start_backtrace\<close>. \<^verbatim>\<open>if not winner\<close> holds for \<^verbatim>\<open>None\<close> and for
  the empty string; the loop over \<^verbatim>\<open>range(len(backtrace_path) - 1)\<close> hands the message
  to \<^verbatim>\<open>backtrace_path[i + 1]\<close>, that is to every entry of the route but the first.
\<close>

definition start_backtrace :: "message \<Rightarrow> int \<Rightarrow> mesh \<Rightarrow> error + mesh" where
  "start_backtrace msg cur f =
     (case dict_get_default (best msg) \<lparr>bid = Val VERY_HIGH_BID, holder = Null\<rparr> of
        None \<Rightarrow> Inl AttributeError
      | Some bst \<Rightarrow>
          (case dict_get (holder bst) of
             None \<Rightarrow> Inr f
           | Some w \<Rightarrow>
               if w = [] then Inr f
               else
                 (case dict_get_default (path msg) [] of
                    None \<Rightarrow> Inl TypeError
                  | Some p \<Rightarrow>
                      let route = backtrace_path w p;
                          winner_msg = backtrace_winner_msg msg bst w route
                      in Inr (fold (\<lambda>receiver. deliver_to receiver winner_msg) (tl route) f))))"

text \<open>\<^verbatim>\<open>MeshSimulator._handle_forward_announcement\<close>; \<^verbatim>\<open>if not path\<close> holds for
  \<^verbatim>\<open>None\<close> and the empty list, \<^verbatim>\<open>if not next_agent\<close> for \<^verbatim>\<open>None\<close> and the empty
  string.\<close>

definition mesh_handle_forward_announcement ::
    "string \<Rightarrow> message \<Rightarrow> int \<Rightarrow> mesh \<Rightarrow> error + mesh" where
  "mesh_handle_forward_announcement sender msg cur f =
     (case dict_get_default (path msg) [] of
        None \<Rightarrow> Inr f
      | Some p \<Rightarrow>
          if p = [] then Inr f
          else
            let last_agent = last p
            in (case find_next_in_ring (ring f) last_agent p of
                  None \<Rightarrow> start_backtrace msg cur f
                | Some next_agent \<Rightarrow>
                    if next_agent = [] then start_backtrace msg cur f
                    else Inr (deliver_to next_agent (msg\<lparr>path := Val (p @ [next_agent])\<rparr>) f)))"

text \<open>\<^verbatim>\<open>MeshSimulator._handle_winner_decision\<close>\<close>

definition mesh_handle_winner_decision :: "message \<Rightarrow> mesh \<Rightarrow> mesh" where
  "mesh_handle_winner_decision msg f =
     (case dict_get_default (winner msg) [] of
        None \<Rightarrow> f
      | Some w \<Rightarrow> deliver_to w msg f)"

text \<open>\<^verbatim>\<open>MeshSimulator._process_message\<close>\<close>

definition process_message :: "string \<Rightarrow> message \<Rightarrow> int \<Rightarrow> mesh \<Rightarrow> error + mesh" where
  "process_message sender msg cur f =
     (let msg_type = dict_get (message_type msg)
      in if msg_type = Some ''TASK_ANNOUNCEMENT'' \<and> sender = ''warehouse''
           then handle_warehouse_announcement msg cur f
         else if msg_type = Some ''FORWARD_ANNOUNCEMENT''
           then mesh_handle_forward_announcement sender msg cur f
         else if msg_type = Some ''WINNER_DECISION''
           then Inr (mesh_handle_winner_decision msg f)
         else Inr f)"

lemma deliver_to_queue: "message_queue (deliver_to r m f) = message_queue f"
  by (simp add: deliver_to_def split: option.splits)

lemma fold_deliver_to_queue:
  "message_queue (fold (\<lambda>r. deliver_to r m) rs f) = message_queue f"
  by (induction rs arbitrary: f) (simp_all add: deliver_to_queue)

lemma process_message_queue:
  assumes "process_message sender msg cur f = Inr f'"
  shows "message_queue f' = message_queue f"
proof -
  have sod: "message_queue (assign_sod_task msg cur f) = message_queue f"
    by (simp add: assign_sod_task_def Let_def deliver_to_queue)
  have fwd: "message_queue (forward_to_ring msg cur f) = message_queue f"
    by (simp add: forward_to_ring_def Let_def deliver_to_queue)
  have bt: "start_backtrace msg cur f = Inr f' \<Longrightarrow> message_queue f' = message_queue f"
    by (auto simp: start_backtrace_def Let_def fold_deliver_to_queue
        split: option.splits if_splits)
  have win: "message_queue (mesh_handle_winner_decision msg f) = message_queue f"
    by (simp add: mesh_handle_winner_decision_def deliver_to_queue split: option.splits)
  from assms show ?thesis
    unfolding process_message_def handle_warehouse_announcement_def
      mesh_handle_forward_announcement_def Let_def
    by (auto simp: sod fwd win deliver_to_queue dest: bt split: option.splits if_splits)
qed

text \<open>
  \<^verbatim>\<open>MeshSimulator.deliver_messages\<close>: the loop pops the head of the queue and processes
  it. The result is the fabric when the loop ends, and the exception that ended it, if
  one did (the popped message is then gone, the rest of the queue is still there).
\<close>

function deliver_messages :: "int \<Rightarrow> mesh \<Rightarrow> mesh \<times> error option" where
  "deliver_messages sim_time f =
     (case message_queue f of
        [] \<Rightarrow> (f, None)
      | (sender, msg, msg_time) # rest \<Rightarrow>
          let f1 = f\<lparr>message_queue := rest\<rparr>;
              cur = (case msg_time of Some t \<Rightarrow> t | None \<Rightarrow> sim_time)
          in (case process_message sender msg cur f1 of
                Inl e \<Rightarrow> (f1, Some e)
              | Inr f2 \<Rightarrow> deliver_messages sim_time f2))"
  by pat_completeness auto
termination
  by (relation "measure (\<lambda>(sim_time, f). length (message_queue f))")
     (auto dest: process_message_queue)

section \<open>Agent message handling\<close>

text \<open>
  The two arguments of the call of \<^verbatim>\<open>compute_bid\<close> in
  \<^verbatim>\<open>VehicleAgent._handle_forward_announcement\<close>: the task dictionary has no
  \<^verbatim>\<open>"due_by"\<close> key, the network dictionary holds the current time only.
\<close>

definition bid_task_info :: "message \<Rightarrow> real \<Rightarrow> message" where
  "bid_task_info msg w = empty_dict\<lparr>
     task_id := entry (dict_get_default (task_id msg) []),
     pickup := entry (dict_get_default (pickup msg) []),
     delivery := entry (dict_get_default (delivery msg) []),
     weight := Val w\<rparr>"

definition bid_network_info :: "int \<Rightarrow> network_info" where
  "bid_network_info cur = \<lparr>current_edge = Absent, current_time = Val (real_of_int cur)\<rparr>"

text \<open>
  The \<^verbatim>\<open>forward_msg\<close> dictionary that \<^verbatim>\<open>VehicleAgent._handle_forward_announcement\<close>
  builds, in the order of the source: \<^verbatim>\<open>float(None)\<close> raises \<^verbatim>\<open>TypeError\<close>,
  \<^verbatim>\<open>None.get\<close> raises \<^verbatim>\<open>AttributeError\<close>, and the test
  \<^verbatim>\<open>self.id not in None\<close> raises \<^verbatim>\<open>TypeError\<close>.
\<close>

definition agent_forward_msg :: "agent \<Rightarrow> message \<Rightarrow> int \<Rightarrow> error + message" where
  "agent_forward_msg ag msg cur =
     (let tid = dict_get_default (task_id msg) [];
          pk = dict_get_default (pickup msg) [];
          dl = dict_get_default (delivery msg) []
      in (case dict_get_default (weight msg) 0 of
            None \<Rightarrow> Inl TypeError
          | Some w \<Rightarrow>
              let p = dict_get_default (path msg) []
              in (case compute_bid ag (bid_task_info msg w) (bid_network_info cur) of
                    Inl e \<Rightarrow> Inl e
                  | Inr b \<Rightarrow>
                      (case dict_get_default (best msg)
                              \<lparr>bid = Val VERY_HIGH_BID, holder = Null\<rparr> of
                         None \<Rightarrow> Inl AttributeError
                       | Some bst \<Rightarrow>
                           (case dict_get_default (bid bst) VERY_HIGH_BID of
                              None \<Rightarrow> Inl TypeError
                            | Some current_best \<Rightarrow>
                                let bst' = (if b < current_best
                                            then \<lparr>bid = Val b, holder = Val (agent_id ag)\<rparr>
                                            else bst)
                                in (case p of
                                      None \<Rightarrow> Inl TypeError
                                    | Some pl \<Rightarrow>
                                        let pl' = (if agent_id ag \<notin> set pl
                                                   then pl @ [agent_id ag] else pl)
                                        in Inr (empty_dict\<lparr>
                                             message_type := Val ''FORWARD_ANNOUNCEMENT'',
                                             task_id := entry tid,
                                             pickup := entry pk,
                                             delivery := entry dl,
                                             weight := Val w,
                                             path := Val pl',
                                             best := Val bst'\<rparr>)))))))"

text \<open>\<^verbatim>\<open>VehicleAgent._handle_forward_announcement\<close>: the dictionary is sent to the
  fabric with \<^verbatim>\<open>mesh.send(self.id, forward_msg, sim_time=current_time)\<close>.\<close>

definition agent_handle_forward_announcement ::
    "agent \<Rightarrow> message \<Rightarrow> int \<Rightarrow> mesh \<Rightarrow> error + mesh" where
  "agent_handle_forward_announcement ag msg cur f =
     (case agent_forward_msg ag msg cur of
        Inl e \<Rightarrow> Inl e
      | Inr forward_msg \<Rightarrow> Inr (send (agent_id ag) (Dict forward_msg) (Some cur) f))"

text \<open>\<^verbatim>\<open>VehicleAgent._handle_winner_decision\<close>\<close>

definition agent_handle_winner_decision :: "message \<Rightarrow> agent \<Rightarrow> agent" where
  "agent_handle_winner_decision msg ag =
     (let w = dict_get_default (winner msg) [];
          tid = dict_get_default (task_id msg) [];
          dl = dict_get_default (delivery msg) []
      in if w = Some (agent_id ag)
         then (if \<not> list_ex (\<lambda>t. fst t = tid) (assigned_tasks ag)
               then ag\<lparr>assigned_tasks := assigned_tasks ag @ [(tid, dl)]\<rparr>
               else ag)
         else ag)"

text \<open>\<^verbatim>\<open>VehicleAgent._handle_message\<close>, on the agent and the fabric it sends to.\<close>

definition handle_message :: "message \<Rightarrow> int \<Rightarrow> agent \<Rightarrow> mesh \<Rightarrow> error + (agent \<times> mesh)" where
  "handle_message msg cur ag f =
     (let msg_type = dict_get (message_type msg)
      in if msg_type = Some ''TASK_ANNOUNCEMENT'' then Inr (ag, f)
         else if msg_type = Some ''FORWARD_ANNOUNCEMENT''
           then (case agent_handle_forward_announcement ag msg cur f of
                   Inl e \<Rightarrow> Inl e
                 | Inr f' \<Rightarrow> Inr (ag, f'))
         else if msg_type = Some ''WINNER_DECISION''
           then Inr (agent_handle_winner_decision msg ag, f)
         else Inr (ag, f))"

lemma handle_message_inbox:
  "handle_message msg cur ag f = Inr (ag', f') \<Longrightarrow> inbox ag' = inbox ag"
  by (auto simp: handle_message_def agent_handle_winner_decision_def Let_def
      split: if_splits sum.splits)

text \<open>
  \<^verbatim>\<open>VehicleAgent.process_messages\<close>: the loop pops the head of the inbox and handles it.
  The result is the agent and the fabric when the loop ends, and the exception that ended
  it, if one did.
\<close>

function process_messages :: "int \<Rightarrow> agent \<Rightarrow> mesh \<Rightarrow> (agent \<times> mesh) \<times> error option" where
  "process_messages cur ag f =
     (case inbox ag of
        [] \<Rightarrow> ((ag, f), None)
      | msg # rest \<Rightarrow>
          let ag1 = ag\<lparr>inbox := rest\<rparr>
          in (case handle_message msg cur ag1 f of
                Inl e \<Rightarrow> ((ag1, f), Some e)
              | Inr (ag2, f2) \<Rightarrow> process_messages cur ag2 f2))"
  by pat_completeness auto
termination
  by (relation "measure (\<lambda>(cur, ag, f). length (inbox ag))")
     (auto dest: handle_message_inbox)

text \<open>
  A call \<^verbatim>\<open>self.agents[k].process_messages(cur, mesh)\<close> on the whole system: the agent
  object stored under the key \<open>k\<close> drains its inbox, and the fabric refers to the
  object as the call left it. The handlers read and write the agent's own fields and the
  fabric's queue only.
\<close>

definition run_agent :: "string \<Rightarrow> int \<Rightarrow> mesh \<Rightarrow> mesh \<times> error option" where
  "run_agent k cur f =
     (case agents f k of
        None \<Rightarrow> (f, None)
      | Some ag \<Rightarrow>
          (case process_messages cur ag f of
             ((ag', f'), e) \<Rightarrow> (f'\<lparr>agents := (agents f')(k \<mapsto> ag')\<rparr>, e)))"

section \<open>Dispatch of task announcements\<close>

text \<open>
  C10. A queued \<^verbatim>\<open>TASK_ANNOUNCEMENT\<close> whose recorded sender is not the literal
  \<^verbatim>\<open>"warehouse"\<close> is ignored at dispatch: \<^verbatim>\<open>_process_message\<close> returns the fabric as
  it was (no traversal is seeded, no inbox changes, the round-robin index stays), and
  draining a queue that holds only such a message leaves nothing but the empty queue.
\<close>

theorem non_warehouse_announcement_ignored:
  assumes "message_type msg = Val ''TASK_ANNOUNCEMENT''" and "sender \<noteq> ''warehouse''"
  shows "process_message sender msg cur f = Inr f
    \<and> deliver_messages sim_time (f\<lparr>message_queue := [(sender, msg, msg_time)]\<rparr>)
        = (f\<lparr>message_queue := []\<rparr>, None)"
proof -
  have pm: "process_message sender msg c g = Inr g" for c g
    using assms by (simp add: process_message_def dict_get_def)
  show ?thesis
    by (simp add: pm)
qed

definition stray_announcement :: message where
  "stray_announcement = empty_dict\<lparr>message_type := Val ''TASK_ANNOUNCEMENT'',
     task_id := Val ''SOD-1'', pickup := Val ''e1'', delivery := Val ''e2'', weight := Val 3\<rparr>"

theorem non_warehouse_announcement_ignored_witness:
  "message_type stray_announcement = Val ''TASK_ANNOUNCEMENT''
    \<and> ''vehicle_A'' \<noteq> ''warehouse''
    \<and> process_message ''vehicle_A'' stray_announcement 5
        (mesh_init [(''vehicle_A'', agent_init ''vehicle_A'' 10 100)])
      = Inr (mesh_init [(''vehicle_A'', agent_init ''vehicle_A'' 10 100)])"
  using non_warehouse_announcement_ignored
    [of stray_announcement "''vehicle_A''" 5
        "mesh_init [(''vehicle_A'', agent_init ''vehicle_A'' 10 100)]"]
  by (simp add: stray_announcement_def empty_dict_def)

section \<open>The send boundary\<close>

text \<open>
  The specification's notion of a well-formed message, in its own words: one of the three
  recognised variants, carrying every required field of that variant (\<open>due_by\<close> and
  \<open>backtrace_route\<close> are optional). It is used to state claim C3 as written; the
  source has no such check.
\<close>

definition spec_well_formed :: "message \<Rightarrow> bool" where
  "spec_well_formed m \<longleftrightarrow>
     (message_type m = Val ''TASK_ANNOUNCEMENT'' \<and> task_id m \<noteq> Absent \<and> pickup m \<noteq> Absent
        \<and> delivery m \<noteq> Absent \<and> weight m \<noteq> Absent)
     \<or> (message_type m = Val ''FORWARD_ANNOUNCEMENT'' \<and> task_id m \<noteq> Absent
        \<and> pickup m \<noteq> Absent \<and> delivery m \<noteq> Absent \<and> weight m \<noteq> Absent
        \<and> path m \<noteq> Absent \<and> best m \<noteq> Absent)
     \<or> (message_type m = Val ''WINNER_DECISION'' \<and> task_id m \<noteq> Absent \<and> winner m \<noteq> Absent
        \<and> pickup m \<noteq> Absent \<and> delivery m \<noteq> Absent \<and> weight m \<noteq> Absent
        \<and> best m \<noteq> Absent)"

definition unknown_variant :: message where
  "unknown_variant = empty_dict\<lparr>message_type := Val ''HELLO''\<rparr>"

definition bare_forward :: message where
  "bare_forward = empty_dict\<lparr>message_type := Val ''FORWARD_ANNOUNCEMENT''\<rparr>"

text \<open>
  C3, as stated, fails: \<^verbatim>\<open>send\<close> queues a dictionary of an unknown variant, and a
  \<^verbatim>\<open>FORWARD_ANNOUNCEMENT\<close> that carries none of its fields.
\<close>

theorem send_queues_malformed:
  "\<not> spec_well_formed unknown_variant
    \<and> message_queue (send ''vehicle_A'' (Dict unknown_variant) (Some 3) (mesh_init []))
        = [(''vehicle_A'', unknown_variant, Some 3)]
    \<and> \<not> spec_well_formed bare_forward
    \<and> message_queue (send ''vehicle_A'' (Dict bare_forward) (Some 3) (mesh_init []))
        = [(''vehicle_A'', bare_forward, Some 3)]"
  by (simp add: spec_well_formed_def unknown_variant_def bare_forward_def empty_dict_def
      send_def mesh_init_def)

text \<open>
  C3, amended. \<^verbatim>\<open>send\<close> drops its argument exactly when it is not a dictionary or has
  no \<^verbatim>\<open>"message_type"\<close> key. Every other dictionary, whatever its variant and
  whichever fields it lacks, is appended to the tail of the queue with its sender and
  time; the agents, the ring and the round-robin index are untouched.
\<close>

theorem send_drops_only_untagged:
  "(message_queue (send s obj t f) = message_queue f
      \<longleftrightarrow> obj = NotDict \<or> (\<exists>m. obj = Dict m \<and> message_type m = Absent))
    \<and> (\<forall>m. obj = Dict m \<and> message_type m \<noteq> Absent
          \<longrightarrow> message_queue (send s obj t f) = message_queue f @ [(s, m, t)])
    \<and> agents (send s obj t f) = agents f
    \<and> ring (send s obj t f) = ring f
    \<and> sod_assign_index (send s obj t f) = sod_assign_index f"
  by (cases obj) (auto simp: send_def)

theorem send_drops_only_untagged_witness:
  "message_type unknown_variant \<noteq> Absent
    \<and> message_queue (send ''vehicle_A'' (Dict unknown_variant) None (mesh_init []))
        = [(''vehicle_A'', unknown_variant, None)]
    \<and> message_queue (send ''vehicle_A'' (Dict empty_dict) None (mesh_init [])) = []"
  using send_drops_only_untagged [of "''vehicle_A''" "Dict unknown_variant" None "mesh_init []"]
    send_drops_only_untagged [of "''vehicle_A''" "Dict empty_dict" None "mesh_init []"]
  by (simp add: unknown_variant_def empty_dict_def mesh_init_def)

section \<open>Start-of-day tasks\<close>

text \<open>
  C7. A \<^verbatim>\<open>TASK_ANNOUNCEMENT\<close> from the warehouse whose \<open>task_id\<close> starts with
  \<^verbatim>\<open>"SOD-"\<close>, on a non-empty ring with round-robin index \<open>i\<close>: the winner is
  \<open>ring[i mod R]\<close>, the index becomes \<open>i + 1\<close>, and the only other change is one
  \<^verbatim>\<open>WINNER_DECISION\<close> with \<open>best = {bid: 0.0, holder: winner}\<close> appended to the
  winner's inbox. The queue is as before and the decision carries no path: there is no
  bidding traversal. The winner is an agent of the fabric, as the ring is the key list of
  the \<open>agents\<close> dictionary (\<open>mesh_init_ring_agents\<close> below).
\<close>

theorem sod_round_robin:
  assumes ann: "message_type msg = Val ''TASK_ANNOUNCEMENT''"
    and tid: "task_id msg = Val tid" "startswith tid ''SOD-''"
    and rng: "ring f \<noteq> []"
    and w: "w = ring f ! (sod_assign_index f mod length (ring f))"
    and ag: "agents f w = Some ag"
  shows "\<exists>wm. process_message ''warehouse'' msg cur f
        = Inr (f\<lparr>sod_assign_index := sod_assign_index f + 1,
                 agents := (agents f)(w \<mapsto> ag\<lparr>inbox := inbox ag @ [wm]\<rparr>)\<rparr>)
      \<and> message_type wm = Val ''WINNER_DECISION''
      \<and> task_id wm = Val tid
      \<and> winner wm = Val w
      \<and> best wm = Val \<lparr>bid = Val 0, holder = Val w\<rparr>
      \<and> path wm = Absent"
proof -
  have "process_message ''warehouse'' msg cur f = Inr (assign_sod_task msg cur f)"
    using ann tid
    by (simp add: process_message_def handle_warehouse_announcement_def dict_get_def
        dict_get_default_def)
  moreover have "assign_sod_task msg cur f
      = f\<lparr>sod_assign_index := sod_assign_index f + 1,
           agents := (agents f)(w \<mapsto> ag\<lparr>inbox := inbox ag @ [sod_winner_msg msg w]\<rparr>)\<rparr>"
    using rng w ag
    by (simp add: assign_sod_task_def Let_def deliver_to_def receive_def sod_winner_msg_def
        empty_dict_def)
  moreover have "task_id (sod_winner_msg msg w) = Val tid"
    using tid by (simp add: sod_winner_msg_def dict_get_def entry_def)
  ultimately show ?thesis
    by (intro exI [of _ "sod_winner_msg msg w"])
       (simp add: sod_winner_msg_def empty_dict_def)
qed

lemma mesh_init_ring_agents: "set (ring (mesh_init ags)) = dom (agents (mesh_init ags))"
  by (simp add: mesh_init_def dom_map_of_conv_image_fst)

definition sod7 :: message where
  "sod7 = empty_dict\<lparr>message_type := Val ''TASK_ANNOUNCEMENT'', task_id := Val ''SOD-7'',
     pickup := Val ''e1'', delivery := Val ''e2'', weight := Val 3\<rparr>"

definition fleet_AB :: mesh where
  "fleet_AB = (mesh_init [(''A'', agent_init ''A'' 10 100), (''B'', agent_init ''B'' 10 100)])
      \<lparr>sod_assign_index := 1\<rparr>"

text \<open>The scenario of the specification: task \<^verbatim>\<open>"SOD-7"\<close>, ring \<open>[A, B]\<close>, index 1.\<close>

theorem sod_round_robin_witness:
  "\<exists>wm. process_message ''warehouse'' sod7 0 fleet_AB
      = Inr (fleet_AB\<lparr>sod_assign_index := 2,
          agents := (agents fleet_AB)(''B'' \<mapsto> (agent_init ''B'' 10 100)\<lparr>inbox := [wm]\<rparr>)\<rparr>)
    \<and> winner wm = Val ''B''
    \<and> best wm = Val \<lparr>bid = Val 0, holder = Val ''B''\<rparr>"
proof -
  have h1: "message_type sod7 = Val ''TASK_ANNOUNCEMENT''"
    and h2: "task_id sod7 = Val ''SOD-7''"
    by (simp_all add: sod7_def empty_dict_def)
  have h3: "startswith ''SOD-7'' ''SOD-''"
    by (simp add: startswith_def)
  have h4: "ring fleet_AB \<noteq> []"
    and h5: "''B'' = ring fleet_AB ! (sod_assign_index fleet_AB mod length (ring fleet_AB))"
    and h6: "agents fleet_AB ''B'' = Some (agent_init ''B'' 10 100)"
    by (simp_all add: fleet_AB_def mesh_init_def)
  have i: "sod_assign_index fleet_AB + 1 = 2" "inbox (agent_init ''B'' 10 100) = []"
    by (simp_all add: fleet_AB_def mesh_init_def agent_init_def)
  from sod_round_robin [OF h1 h2 h3 h4 h5 h6, of 0] show ?thesis
    unfolding i by auto
qed

section \<open>The bid\<close>

text \<open>
  C4. When the weight passes the capacity gate and the base cost is below
  \<open>VERY_HIGH_BID\<close>, \<^verbatim>\<open>compute_bid\<close> returns the product of base cost, priority
  multiplier, capacity penalty and time penalty, clamped to \<open>VERY_HIGH_BID\<close>, with
  the three factors as the specification tabulates them. The weight is what
  \<^verbatim>\<open>task_info.get("weight", 0.0)\<close> holds and the current time what
  \<^verbatim>\<open>network_info.get("current_time", 0)\<close> holds, both numbers.
\<close>

theorem compute_bid_formula:
  assumes w: "dict_get_default (weight task_info) 0 = Some w"
    and gate: "load ag + w \<le> capacity ag"
    and base: "base_cost = calculate_base_cost (dict_get_default (current_edge ni) ''warehouse'')
                  (dict_get_default (delivery task_info) []) ni"
    and feasible: "base_cost < VERY_HIGH_BID"
    and now: "dict_get_default (current_time ni) 0 = Some now"
    and pm: "priority_mult = (if w \<ge> 5 then 0.5 else if 2 \<le> w \<and> w < 5 then 1 else 1.5)"
    and cp: "capacity_penalty = (if capacity ag \<le> 0 then 1 else 1 + 2 * (load ag / capacity ag))"
    and tp: "time_penalty =
        (case dict_get (due_by task_info) of
           None \<Rightarrow> 1
         | Some due \<Rightarrow>
             let slack = due - (now + base_cost / 10)
             in if slack \<le> 0 then 6
                else if 0 < slack \<and> slack \<le> 100 then 3
                else if 100 < slack \<and> slack \<le> 300 then 1.5
                else 1)"
  shows "compute_bid ag task_info ni
      = Inr (min (base_cost * priority_mult * capacity_penalty * time_penalty) VERY_HIGH_BID)"
proof -
  have p: "calculate_priority_multiplier w = priority_mult"
    by (simp add: calculate_priority_multiplier_def pm)
  have c: "calculate_capacity_penalty ag = capacity_penalty"
    by (simp add: calculate_capacity_penalty_def cp Let_def)
  have t: "calculate_time_penalty task_info base_cost (Some now) = Inr time_penalty"
    by (simp add: calculate_time_penalty_def tp Let_def split: option.splits)
  show ?thesis
    using gate feasible
    by (simp add: compute_bid_def w has_capacity_def Let_def base [symmetric] now p c t)
qed

definition urgent_task :: message where
  "urgent_task = empty_dict\<lparr>task_id := Val ''T9'', pickup := Val ''e1'', delivery := Val ''e2'',
     weight := Val 6, due_by := Val 50\<rparr>"

definition loaded_agent :: agent where
  "loaded_agent = (agent_init ''A'' 10 100)\<lparr>load := 2\<rparr>"

theorem compute_bid_formula_witness:
  "load loaded_agent + 6 \<le> capacity loaded_agent
    \<and> compute_bid loaded_agent urgent_task \<lparr>current_edge = Absent, current_time = Val 0\<rparr>
        = Inr 210"
proof -
  let ?ni = "\<lparr>current_edge = Absent, current_time = Val 0\<rparr>"
  have h1: "dict_get_default (weight urgent_task) 0 = Some 6"
    by (simp add: urgent_task_def empty_dict_def dict_get_default_def)
  have h2: "load loaded_agent + 6 \<le> capacity loaded_agent"
    by (simp add: loaded_agent_def agent_init_def)
  have h3: "(100::real) = calculate_base_cost (dict_get_default (current_edge ?ni) ''warehouse'')
                  (dict_get_default (delivery urgent_task) []) ?ni"
    by (simp add: calculate_base_cost_def)
  have h4: "(100::real) < VERY_HIGH_BID"
    by (simp add: VERY_HIGH_BID_def)
  have h5: "dict_get_default (current_time ?ni) 0 = Some 0"
    by (simp add: dict_get_default_def)
  have d: "dict_get (due_by urgent_task) = Some 50"
    by (simp add: urgent_task_def empty_dict_def dict_get_def)
  have l: "load loaded_agent = 2" "capacity loaded_agent = 10"
    by (simp_all add: loaded_agent_def agent_init_def)
  from compute_bid_formula [OF h1 h2 h3 h4 h5 refl refl refl] h2 show ?thesis
    by (simp add: d l VERY_HIGH_BID_def)
qed

section \<open>Committing an assignment\<close>

lemma unique_key_once:
  "distinct (map fst ts) \<Longrightarrow> k \<in> fst ` set ts \<Longrightarrow> length (filter (\<lambda>t. fst t = k) ts) = 1"
proof (induction ts)
  case Nil
  then show ?case by simp
next
  case (Cons t ts)
  show ?case
  proof (cases "fst t = k")
    case True
    with Cons.prems have "k \<notin> fst ` set ts" by auto
    then have "filter (\<lambda>t. fst t = k) ts = []"
      by (auto simp: filter_empty_conv)
    with True show ?thesis by simp
  next
    case False
    with Cons show ?thesis by auto
  qed
qed

text \<open>
  C9. Handling a \<^verbatim>\<open>WINNER_DECISION\<close> appends \<open>(task_id, delivery)\<close> to
  \<open>assigned_tasks\<close> only when the decision names this agent and no entry with that
  \<open>task_id\<close> is there yet. The list stays unique by \<open>task_id\<close>; after a decision
  that names the agent there is exactly one entry for its \<open>task_id\<close>, and a second
  delivery of it, or of any decision with the same \<open>task_id\<close>, changes nothing.
\<close>

theorem winner_decision_idempotent:
  assumes uniq: "distinct (map fst (assigned_tasks ag))"
    and named: "named \<longleftrightarrow> dict_get_default (winner msg) [] = Some (agent_id ag)"
    and tid: "tid = dict_get_default (task_id msg) []"
    and dl: "dl = dict_get_default (delivery msg) []"
    and ag': "ag' = agent_handle_winner_decision msg ag"
  shows "assigned_tasks ag'
        = (if named \<and> tid \<notin> fst ` set (assigned_tasks ag)
           then assigned_tasks ag @ [(tid, dl)] else assigned_tasks ag)
    \<and> distinct (map fst (assigned_tasks ag'))
    \<and> (named \<longrightarrow>
          length (filter (\<lambda>t. fst t = tid) (assigned_tasks ag')) = 1
          \<and> (\<forall>msg2. dict_get_default (task_id msg2) [] = tid
                \<longrightarrow> agent_handle_winner_decision msg2 ag' = ag'))"
proof -
  have ex: "list_ex (\<lambda>t. fst t = k) ts \<longleftrightarrow> k \<in> fst ` set ts"
    for k and ts :: "(string option \<times> string option) list"
    by (auto simp: list_ex_iff)
  have a: "assigned_tasks ag'
        = (if named \<and> tid \<notin> fst ` set (assigned_tasks ag)
           then assigned_tasks ag @ [(tid, dl)] else assigned_tasks ag)"
    by (simp add: ag' agent_handle_winner_decision_def Let_def ex tid dl named)
  have b: "distinct (map fst (assigned_tasks ag'))"
    using uniq by (simp add: a)
  have c: "length (filter (\<lambda>t. fst t = tid) (assigned_tasks ag')) = 1" if named
  proof -
    from that have "tid \<in> fst ` set (assigned_tasks ag')"
      by (simp add: a)
    with b show ?thesis by (rule unique_key_once)
  qed
  have d: "agent_handle_winner_decision msg2 ag' = ag'"
    if named and "dict_get_default (task_id msg2) [] = tid" for msg2
  proof -
    from \<open>named\<close> have "tid \<in> fst ` set (assigned_tasks ag')"
      by (simp add: a)
    with that(2) show ?thesis
      by (simp add: agent_handle_winner_decision_def Let_def ex)
  qed
  from a b c d show ?thesis
    by blast
qed

definition decision_T1 :: message where
  "decision_T1 = empty_dict\<lparr>message_type := Val ''WINNER_DECISION'', task_id := Val ''T1'',
     winner := Val ''A'', pickup := Val ''e1'', delivery := Val ''e2'', weight := Val 3,
     best := Val \<lparr>bid = Val 100, holder = Val ''A''\<rparr>\<rparr>"

theorem winner_decision_idempotent_witness:
  "assigned_tasks (agent_handle_winner_decision decision_T1 (agent_init ''A'' 10 100))
      = [(Some ''T1'', Some ''e2'')]
    \<and> assigned_tasks (agent_handle_winner_decision decision_T1
         (agent_handle_winner_decision decision_T1 (agent_init ''A'' 10 100)))
      = [(Some ''T1'', Some ''e2'')]"
proof -
  have h1: "distinct (map fst (assigned_tasks (agent_init ''A'' 10 100)))"
    by (simp add: agent_init_def)
  have h2: "dict_get_default (winner decision_T1) [] = Some (agent_id (agent_init ''A'' 10 100))"
    by (simp add: decision_T1_def empty_dict_def agent_init_def dict_get_default_def)
  have t: "dict_get_default (task_id decision_T1) [] = Some ''T1''"
    "dict_get_default (delivery decision_T1) [] = Some ''e2''"
    by (simp_all add: decision_T1_def empty_dict_def dict_get_default_def)
  have e: "assigned_tasks (agent_init ''A'' 10 100) = []"
    by (simp add: agent_init_def)
  from winner_decision_idempotent [OF h1 refl refl refl refl, of decision_T1] h2 show ?thesis
    by (simp add: t e)
qed

section \<open>The backtrace route\<close>

lemma list_index_None: "list_index p w = None \<longleftrightarrow> w \<notin> set p"
  by (induction p) auto

lemma list_index_Some:
  "list_index p w = Some i \<Longrightarrow> \<exists>pre suf. p = pre @ w # suf \<and> w \<notin> set pre \<and> length pre = i"
proof (induction p arbitrary: i)
  case Nil
  then show ?case by simp
next
  case (Cons y ys)
  show ?case
  proof (cases "y = w")
    case True
    with Cons.prems have "i = 0" by simp
    with True show ?thesis by (intro exI [of _ "[]"] exI [of _ ys]) simp
  next
    case False
    with Cons.prems obtain j where j: "list_index ys w = Some j" "i = Suc j"
      by auto
    from Cons.IH [OF j(1)] obtain pre suf
      where "ys = pre @ w # suf" "w \<notin> set pre" "length pre = j"
      by blast
    with False j(2) show ?thesis
      by (intro exI [of _ "y # pre"] exI [of _ suf]) simp
  qed
qed

lemma backtrace_path_shape:
  "if w \<in> set p
   then \<exists>pre suf. p = pre @ w # suf \<and> w \<notin> set pre \<and> backtrace_path w p = rev suf @ [w]
   else backtrace_path w p = [w]"
proof (cases "list_index p w")
  case None
  moreover from None have "w \<notin> set p"
    by (simp add: list_index_None)
  ultimately show ?thesis
    by (simp add: backtrace_path_def)
next
  case (Some i)
  from list_index_Some [OF Some] obtain pre suf
    where p: "p = pre @ w # suf" "w \<notin> set pre" "length pre = i"
    by blast
  from Some have "backtrace_path w p = rev (drop i p)"
    by (simp add: backtrace_path_def)
  also from p have "drop i p = w # suf"
    by simp
  finally have "backtrace_path w p = rev suf @ [w]"
    by simp
  with p show ?thesis by auto
qed

text \<open>
  C2, amended. For a message with a holder, \<^verbatim>\<open>_start_backtrace\<close> builds the route by
  reversing the part of the path from the holder's first position to the end of the path:
  the route starts at the last entry of the path and runs back to the holder, which is
  its last entry. A holder that is not in the path gives the one-element route
  \<open>[holder]\<close>. The decision carries this route and is handed to every entry of the
  route but the first.
\<close>

theorem backtrace_route_shape:
  assumes b: "best msg = Val bst" and h: "holder bst = Val w" "w \<noteq> []"
    and p: "path msg = Val p"
  shows "\<exists>route. start_backtrace msg cur f
        = Inr (fold (\<lambda>receiver. deliver_to receiver (backtrace_winner_msg msg bst w route))
                 (tl route) f)
      \<and> backtrace_route (backtrace_winner_msg msg bst w route) = Val route
      \<and> (if w \<in> set p
         then \<exists>pre suf. p = pre @ w # suf \<and> w \<notin> set pre \<and> route = rev suf @ [w]
         else route = [w])"
proof -
  have "start_backtrace msg cur f
      = Inr (fold (\<lambda>receiver. deliver_to receiver
                (backtrace_winner_msg msg bst w (backtrace_path w p)))
             (tl (backtrace_path w p)) f)"
    using b h p by (simp add: start_backtrace_def dict_get_default_def dict_get_def Let_def)
  moreover have "backtrace_route (backtrace_winner_msg msg bst w (backtrace_path w p))
      = Val (backtrace_path w p)"
    by (simp add: backtrace_winner_msg_def)
  ultimately show ?thesis
    using backtrace_path_shape [of w p] by blast
qed

definition completed_ABC :: message where
  "completed_ABC = empty_dict\<lparr>message_type := Val ''FORWARD_ANNOUNCEMENT'',
     task_id := Val ''T1'', pickup := Val ''e1'', delivery := Val ''e2'', weight := Val 3,
     path := Val [''warehouse'', ''A'', ''B'', ''C''],
     best := Val \<lparr>bid = Val 50, holder = Val ''B''\<rparr>\<rparr>"

definition fleet_ABC :: mesh where
  "fleet_ABC = mesh_init [(''A'', agent_init ''A'' 10 100), (''B'', agent_init ''B'' 10 100),
     (''C'', agent_init ''C'' 10 100)]"

text \<open>
  C2, as stated, fails on the scenario of the specification: for the path
  \<open>[warehouse, A, B, C]\<close> and holder \<open>B\<close> the ring is fully visited, and the route
  built and delivered to \<open>B\<close> is \<open>[C, B]\<close>, not \<open>[B, A]\<close>.
\<close>

theorem backtrace_route_C_B:
  "find_next_in_ring (ring fleet_ABC) ''C'' [''warehouse'', ''A'', ''B'', ''C''] = None
    \<and> backtrace_path ''B'' [''warehouse'', ''A'', ''B'', ''C''] = [''C'', ''B'']
    \<and> backtrace_path ''B'' [''warehouse'', ''A'', ''B'', ''C''] \<noteq> [''B'', ''A'']
    \<and> (case process_message ''C'' completed_ABC 0 fleet_ABC of
          Inl e \<Rightarrow> None
        | Inr s \<Rightarrow> map_option (\<lambda>a. map backtrace_route (inbox a)) (agents s ''B''))
       = Some [Val [''C'', ''B'']]"
proof -
  have n: "find_next_in_ring (ring fleet_ABC) ''C'' [''warehouse'', ''A'', ''B'', ''C''] = None"
    by (simp add: fleet_ABC_def mesh_init_def find_next_in_ring_def upt_rec)
  have r: "backtrace_path ''B'' [''warehouse'', ''A'', ''B'', ''C''] = [''C'', ''B'']"
    by (simp add: backtrace_path_def)
  have s: "start_backtrace completed_ABC 0 fleet_ABC
      = Inr (deliver_to ''B''
          (backtrace_winner_msg completed_ABC \<lparr>bid = Val 50, holder = Val ''B''\<rparr> ''B'' [''C'', ''B''])
          fleet_ABC)"
    by (simp add: start_backtrace_def completed_ABC_def empty_dict_def dict_get_default_def
        dict_get_def r)
  have pm: "process_message ''C'' completed_ABC 0 fleet_ABC = start_backtrace completed_ABC 0 fleet_ABC"
    using n by (simp add: process_message_def mesh_handle_forward_announcement_def
        completed_ABC_def empty_dict_def dict_get_default_def dict_get_def)
  show ?thesis
    by (simp add: n r pm s)
       (simp add: deliver_to_def fleet_ABC_def mesh_init_def receive_def agent_init_def
         backtrace_winner_msg_def empty_dict_def)
qed

theorem backtrace_route_shape_witness:
  "\<exists>route. start_backtrace completed_ABC 0 fleet_ABC
        = Inr (fold (\<lambda>receiver. deliver_to receiver
                 (backtrace_winner_msg completed_ABC \<lparr>bid = Val 50, holder = Val ''B''\<rparr> ''B'' route))
                 (tl route) fleet_ABC)
      \<and> route = [''C'', ''B'']"
proof -
  have h: "best completed_ABC = Val \<lparr>bid = Val 50, holder = Val ''B''\<rparr>"
    "holder \<lparr>bid = Val 50, holder = Val ''B''\<rparr> = Val ''B''" "''B'' \<noteq> []"
    "path completed_ABC = Val [''warehouse'', ''A'', ''B'', ''C'']"
    by (simp_all add: completed_ABC_def empty_dict_def)
  from backtrace_route_shape [OF h, of 0 fleet_ABC] obtain route pre suf
    where s: "start_backtrace completed_ABC 0 fleet_ABC
        = Inr (fold (\<lambda>receiver. deliver_to receiver
                 (backtrace_winner_msg completed_ABC \<lparr>bid = Val 50, holder = Val ''B''\<rparr> ''B'' route))
                 (tl route) fleet_ABC)"
      and p: "[''warehouse'', ''A'', ''B'', ''C''] = pre @ ''B'' # suf" "''B'' \<notin> set pre"
        "route = rev suf @ [''B'']"
    by auto
  from p(1,2) have "pre = [''warehouse'', ''A''] \<and> suf = [''C'']"
    by (auto simp: append_eq_Cons_conv Cons_eq_append_conv)
  with p(3) have "route = [''C'', ''B'']" by simp
  with s show ?thesis by blast
qed

section \<open>One task's traversal of the ring\<close>

text \<open>
  The \<^verbatim>\<open>FORWARD_ANNOUNCEMENT\<close>s of one task, most recent first. \<open>ToAgent k\<close> tags the
  dictionary the fabric hands to the agent stored under the key \<open>k\<close>,
  \<open>FromAgent s\<close> the dictionary an agent sends back with \<^verbatim>\<open>mesh.send(self.id, ...)\<close>.
  The three rules are the three places of the source that produce such a dictionary:
  \<^verbatim>\<open>_forward_to_ring\<close> for a task that is not a start-of-day task (\<open>seed\<close>), the
  agent's \<^verbatim>\<open>_handle_forward_announcement\<close> at whatever time the agent is run
  (\<open>bid\<close>), and the fabric's \<^verbatim>\<open>_handle_forward_announcement\<close> when it finds a next
  agent (\<open>relay\<close>). An agent bids with the id, load and capacity it has in the
  fabric \<open>f\<close>. The lemmas \<open>dispatch_seeds_traversal\<close>, \<open>agent_bid_step\<close>,
  \<open>dispatch_relays\<close> and \<open>dispatch_completes\<close> relate the rules to the functions
  on the whole system.
\<close>

datatype hop = ToAgent string | FromAgent string

inductive traversal :: "mesh \<Rightarrow> message \<Rightarrow> (hop \<times> message) list \<Rightarrow> bool"
  for f :: mesh and ann :: message where
  seed:
    "\<lbrakk>dict_get_default (task_id ann) [] = Some tid; \<not> startswith tid ''SOD-''; ring f \<noteq> []\<rbrakk>
     \<Longrightarrow> traversal f ann [(ToAgent (ring f ! 0), ring_forward_msg ann (ring f ! 0))]"
| bid:
    "\<lbrakk>traversal f ann ((ToAgent k, m) # tr); agents f k = Some ag;
      agent_forward_msg ag m cur = Inr m'\<rbrakk>
     \<Longrightarrow> traversal f ann ((FromAgent (agent_id ag), m') # (ToAgent k, m) # tr)"
| relay:
    "\<lbrakk>traversal f ann ((FromAgent s, m) # tr); dict_get_default (path m) [] = Some p;
      p \<noteq> []; find_next_in_ring (ring f) (last p) p = Some next_agent; next_agent \<noteq> []\<rbrakk>
     \<Longrightarrow> traversal f ann
           ((ToAgent next_agent, m\<lparr>path := Val (p @ [next_agent])\<rparr>) # (FromAgent s, m) # tr)"

code_pred traversal .

text \<open>Every agent is stored in the \<^verbatim>\<open>agents\<close> dictionary under its own id.\<close>

definition keyed_by_id :: "mesh \<Rightarrow> bool" where
  "keyed_by_id f \<longleftrightarrow> (\<forall>k ag. agents f k = Some ag \<longrightarrow> agent_id ag = k)"

text \<open>\<^verbatim>\<open>best.bid\<close> and \<^verbatim>\<open>best.holder\<close> of a message, \<open>None\<close> when there is none.\<close>

definition bid_of :: "message \<Rightarrow> real option" where
  "bid_of m = (case best m of Val bst \<Rightarrow> dict_get (bid bst) | _ \<Rightarrow> None)"

definition holder_of :: "message \<Rightarrow> string option" where
  "holder_of m = (case best m of Val bst \<Rightarrow> dict_get (holder bst) | _ \<Rightarrow> None)"

lemma dict_get_simps [simp]:
  "dict_get (Val v) = Some v" "dict_get Null = None" "dict_get Absent = None"
  by (simp_all add: dict_get_def)

lemma dict_get_default_simps [simp]:
  "dict_get_default (Val v) d = Some v" "dict_get_default Null d = None"
  "dict_get_default Absent d = Some d"
  by (simp_all add: dict_get_default_def)

lemma entry_simps [simp]: "entry (Some v) = Val v" "entry None = Null"
  by (simp_all add: entry_def)

lemma dispatch_seeds_traversal:
  assumes "message_type ann = Val ''TASK_ANNOUNCEMENT''"
    and "dict_get_default (task_id ann) [] = Some tid" "\<not> startswith tid ''SOD-''"
    and "ring g \<noteq> []"
  shows "process_message ''warehouse'' ann cur g
      = Inr (deliver_to (ring g ! 0) (ring_forward_msg ann (ring g ! 0)) g)"
  using assms
  by (simp add: process_message_def handle_warehouse_announcement_def forward_to_ring_def
      dict_get_def Let_def)

lemma agent_bid_step:
  assumes "message_type m = Val ''FORWARD_ANNOUNCEMENT''"
    and "agent_forward_msg ag m cur = Inr m'"
  shows "handle_message m cur ag g = Inr (ag, send (agent_id ag) (Dict m') (Some cur) g)"
  using assms
  by (simp add: handle_message_def agent_handle_forward_announcement_def dict_get_def)

lemma dispatch_relays:
  assumes "message_type m = Val ''FORWARD_ANNOUNCEMENT''"
    and "dict_get_default (path m) [] = Some p" "p \<noteq> []"
    and "find_next_in_ring (ring g) (last p) p = Some next_agent" "next_agent \<noteq> []"
  shows "process_message s m cur g
      = Inr (deliver_to next_agent (m\<lparr>path := Val (p @ [next_agent])\<rparr>) g)"
  using assms
  by (simp add: process_message_def mesh_handle_forward_announcement_def dict_get_def)

lemma dispatch_completes:
  assumes "message_type m = Val ''FORWARD_ANNOUNCEMENT''"
    and "dict_get_default (path m) [] = Some p" "p \<noteq> []"
    and "find_next_in_ring (ring g) (last p) p = None
         \<or> find_next_in_ring (ring g) (last p) p = Some []"
  shows "process_message s m cur g = start_backtrace m cur g"
  using assms
  by (auto simp: process_message_def mesh_handle_forward_announcement_def dict_get_def)

lemma compute_bid_le: "compute_bid ag t ni = Inr b \<Longrightarrow> b \<le> VERY_HIGH_BID"
  by (auto simp: compute_bid_def Let_def split: option.splits if_splits sum.splits)

lemma compute_bid_over_capacity:
  "dict_get_default (weight t) 0 = Some w \<Longrightarrow> load ag + w > capacity ag
   \<Longrightarrow> compute_bid ag t ni = Inr VERY_HIGH_BID"
  by (simp add: compute_bid_def has_capacity_def)

lemma find_next_in_ring_Some:
  assumes "find_next_in_ring rng c p = Some n"
  shows "n \<in> set rng \<and> n \<notin> set p"
proof (cases "c = ''warehouse''")
  case True
  with assms have "List.find (\<lambda>a. a \<notin> set p) rng = Some n"
    by (simp add: find_next_in_ring_def)
  then show ?thesis
    by (auto simp: find_Some_iff)
next
  case False
  with assms obtain idx where idx: "list_index rng c = Some idx"
    and fnd: "List.find (\<lambda>a. a \<notin> set p)
        (map (\<lambda>offset. rng ! ((idx + offset) mod length rng)) [1..<length rng + 1]) = Some n"
    by (auto simp: find_next_in_ring_def split: option.splits)
  from idx have ne: "rng \<noteq> []"
    by auto
  from fnd obtain i where "i < length rng" "n \<notin> set p"
    "n = rng ! ((idx + [1..<length rng + 1] ! i) mod length rng)"
    by (auto simp: find_Some_iff simp del: upt_Suc)
  moreover from ne have "(idx + [1..<length rng + 1] ! i) mod length rng < length rng"
    by simp
  ultimately show ?thesis
    by (metis nth_mem)
qed

lemma agent_forward_msg_Inr:
  assumes fwd: "agent_forward_msg ag m cur = Inr m'"
    and b: "best m = Val \<lparr>bid = Val b, holder = h0\<rparr>"
    and p: "path m = Val p"
  shows "\<exists>w c. dict_get_default (weight m) 0 = Some w
      \<and> compute_bid ag (bid_task_info m w) (bid_network_info cur) = Inr c
      \<and> best m' = Val (if c < b then \<lparr>bid = Val c, holder = Val (agent_id ag)\<rparr>
                        else \<lparr>bid = Val b, holder = h0\<rparr>)
      \<and> path m' = Val (if agent_id ag \<notin> set p then p @ [agent_id ag] else p)
      \<and> weight m' = Val w
      \<and> message_type m' = Val ''FORWARD_ANNOUNCEMENT''"
proof -
  from fwd obtain w where w: "dict_get_default (weight m) 0 = Some w"
    by (cases "dict_get_default (weight m) 0") (simp_all add: agent_forward_msg_def Let_def)
  from fwd w obtain c
    where c: "compute_bid ag (bid_task_info m w) (bid_network_info cur) = Inr c"
    by (cases "compute_bid ag (bid_task_info m w) (bid_network_info cur)")
       (simp_all add: agent_forward_msg_def Let_def)
  have bp: "dict_get_default (best m) \<lparr>bid = Val VERY_HIGH_BID, holder = Null\<rparr>
        = Some \<lparr>bid = Val b, holder = h0\<rparr>"
    "dict_get_default (path m) [] = Some p"
    by (simp_all add: b p dict_get_default_def)
  from fwd have m': "m' = empty_dict\<lparr>
       message_type := Val ''FORWARD_ANNOUNCEMENT'',
       task_id := entry (dict_get_default (task_id m) []),
       pickup := entry (dict_get_default (pickup m) []),
       delivery := entry (dict_get_default (delivery m) []),
       weight := Val w,
       path := Val (if agent_id ag \<notin> set p then p @ [agent_id ag] else p),
       best := Val (if c < b then \<lparr>bid = Val c, holder = Val (agent_id ag)\<rparr>
                    else \<lparr>bid = Val b, holder = h0\<rparr>)\<rparr>"
    by (simp add: agent_forward_msg_def Let_def w c bp split del: if_split)
  show ?thesis
    by (intro exI [of _ w] exI [of _ c]) (simp add: w c m')
qed


text \<open>What every message of a traversal satisfies: it carries a bid of at most
  \<open>VERY_HIGH_BID\<close>, its path is the sentinel followed by distinct ids, its weight is the
  task's, and a message on its way to an agent has that agent, a ring member, in its path.\<close>

definition hop_ok :: "mesh \<Rightarrow> message \<Rightarrow> hop \<Rightarrow> message \<Rightarrow> bool" where
  "hop_ok f ann h m \<longleftrightarrow>
     (\<exists>b h0 q. best m = Val \<lparr>bid = Val b, holder = h0\<rparr> \<and> b \<le> VERY_HIGH_BID
        \<and> path m = Val (''warehouse'' # q) \<and> distinct q
        \<and> weight m = entry (dict_get_default (weight ann) 0)
        \<and> message_type m = Val ''FORWARD_ANNOUNCEMENT''
        \<and> (case h of ToAgent k \<Rightarrow> k \<in> set (ring f) \<and> k \<in> set q | FromAgent s \<Rightarrow> True))"

lemma hop_ok_seed:
  assumes "ring f \<noteq> []"
  shows "hop_ok f ann (ToAgent (ring f ! 0)) (ring_forward_msg ann (ring f ! 0))"
proof -
  from assms have "ring f ! 0 \<in> set (ring f)"
    by simp
  then show ?thesis
    by (simp add: hop_ok_def ring_forward_msg_def empty_dict_def VERY_HIGH_BID_def)
qed

lemma hop_ok_bid:
  assumes ok: "hop_ok f ann (ToAgent k) m"
    and fwd: "agent_forward_msg ag m cur = Inr m'"
  shows "hop_ok f ann (FromAgent (agent_id ag)) m'"
proof -
  from ok obtain b h0 q where m: "best m = Val \<lparr>bid = Val b, holder = h0\<rparr>"
    "b \<le> VERY_HIGH_BID" "path m = Val (''warehouse'' # q)" "distinct q"
    "weight m = entry (dict_get_default (weight ann) 0)"
    by (auto simp: hop_ok_def)
  from agent_forward_msg_Inr [OF fwd m(1) m(3)] obtain w c
    where w: "dict_get_default (weight m) 0 = Some w"
      and c: "compute_bid ag (bid_task_info m w) (bid_network_info cur) = Inr c"
      and m': "best m' = Val (if c < b then \<lparr>bid = Val c, holder = Val (agent_id ag)\<rparr>
                        else \<lparr>bid = Val b, holder = h0\<rparr>)"
        "path m' = Val (if agent_id ag \<notin> set (''warehouse'' # q)
                        then (''warehouse'' # q) @ [agent_id ag] else ''warehouse'' # q)"
        "weight m' = Val w" "message_type m' = Val ''FORWARD_ANNOUNCEMENT''"
    by blast
  from compute_bid_le [OF c] have cle: "c \<le> VERY_HIGH_BID" .
  from w m(5) have wt: "weight m' = entry (dict_get_default (weight ann) 0)"
    by (cases "dict_get_default (weight ann) 0") (simp_all add: m'(3))
  let ?q = "if agent_id ag \<notin> set (''warehouse'' # q) then q @ [agent_id ag] else q"
  have p: "path m' = Val (''warehouse'' # ?q)" and d: "distinct ?q"
    using m(4) by (simp_all add: m'(2))
  show ?thesis
    unfolding hop_ok_def
  proof (cases "c < b")
    case True
    with cle p d wt m'(4) show "\<exists>b h0 q. best m' = Val \<lparr>bid = Val b, holder = h0\<rparr>
        \<and> b \<le> VERY_HIGH_BID \<and> path m' = Val (''warehouse'' # q) \<and> distinct q
        \<and> weight m' = entry (dict_get_default (weight ann) 0)
        \<and> message_type m' = Val ''FORWARD_ANNOUNCEMENT''
        \<and> (case FromAgent (agent_id ag) of ToAgent k \<Rightarrow> k \<in> set (ring f) \<and> k \<in> set q
           | FromAgent s \<Rightarrow> True)"
      by (intro exI [of _ c] exI [of _ "Val (agent_id ag)"] exI [of _ ?q]) (simp add: m'(1))
  next
    case False
    with m(2) p d wt m'(4) show "\<exists>b h0 q. best m' = Val \<lparr>bid = Val b, holder = h0\<rparr>
        \<and> b \<le> VERY_HIGH_BID \<and> path m' = Val (''warehouse'' # q) \<and> distinct q
        \<and> weight m' = entry (dict_get_default (weight ann) 0)
        \<and> message_type m' = Val ''FORWARD_ANNOUNCEMENT''
        \<and> (case FromAgent (agent_id ag) of ToAgent k \<Rightarrow> k \<in> set (ring f) \<and> k \<in> set q
           | FromAgent s \<Rightarrow> True)"
      by (intro exI [of _ b] exI [of _ h0] exI [of _ ?q]) (simp add: m'(1))
  qed
qed

lemma hop_ok_relay:
  assumes ok: "hop_ok f ann (FromAgent s) m"
    and p: "dict_get_default (path m) [] = Some p"
    and nxt: "find_next_in_ring (ring f) (last p) p = Some next_agent"
  shows "hop_ok f ann (ToAgent next_agent) (m\<lparr>path := Val (p @ [next_agent])\<rparr>)"
proof -
  from ok obtain b h0 q where m: "best m = Val \<lparr>bid = Val b, holder = h0\<rparr>"
    "b \<le> VERY_HIGH_BID" "path m = Val (''warehouse'' # q)" "distinct q"
    "weight m = entry (dict_get_default (weight ann) 0)"
    "message_type m = Val ''FORWARD_ANNOUNCEMENT''"
    by (auto simp: hop_ok_def)
  from p m(3) have pq: "p = ''warehouse'' # q"
    by simp
  from find_next_in_ring_Some [OF nxt] pq
  have n: "next_agent \<in> set (ring f)" "next_agent \<notin> set q"
    by simp_all
  show ?thesis
    unfolding hop_ok_def
    using m n pq
    by (intro exI [of _ b] exI [of _ h0] exI [of _ "q @ [next_agent]"]) simp
qed

lemma traversal_hop_ok:
  "traversal f ann tr \<Longrightarrow> \<forall>(h, m) \<in> set tr. hop_ok f ann h m"
proof (induction rule: traversal.induct)
  case (seed tid)
  then show ?case
    by (simp add: hop_ok_seed)
next
  case (bid k m tr ag cur m')
  from bid.IH have "hop_ok f ann (ToAgent k) m"
    by simp
  from hop_ok_bid [OF this bid.hyps(3)] bid.IH show ?case
    by simp
next
  case (relay s m tr p next_agent)
  from relay.IH have "hop_ok f ann (FromAgent s) m"
    by simp
  from hop_ok_relay [OF this relay.hyps(2) relay.hyps(4)] relay.IH show ?case
    by simp
qed


lemma traversal_head_ok:
  "traversal f ann ((h, m) # tr) \<Longrightarrow> hop_ok f ann h m"
  using traversal_hop_ok [of f ann "(h, m) # tr"] by simp

text \<open>The path after the sentinel and the holder stay within the ring.\<close>

definition hop_in_ring :: "mesh \<Rightarrow> message \<Rightarrow> bool" where
  "hop_in_ring f m \<longleftrightarrow>
     (\<exists>q. path m = Val (''warehouse'' # q) \<and> distinct q \<and> set q \<subseteq> set (ring f))
     \<and> (\<forall>w. holder_of m = Some w \<longrightarrow> w \<in> set (ring f))"

lemma traversal_in_ring:
  assumes keyed: "keyed_by_id f"
  shows "traversal f ann tr \<Longrightarrow> \<forall>(h, m) \<in> set tr. hop_in_ring f m"
proof (induction rule: traversal.induct)
  case (seed tid)
  then have "ring f ! 0 \<in> set (ring f)"
    by simp
  then show ?case
    by (simp add: hop_in_ring_def ring_forward_msg_def empty_dict_def holder_of_def)
next
  case (bid k m tr ag cur m')
  from bid.IH have ir: "hop_in_ring f m"
    by simp
  from traversal_head_ok [OF bid.hyps(1)] obtain b h0 q
    where m: "best m = Val \<lparr>bid = Val b, holder = h0\<rparr>" "path m = Val (''warehouse'' # q)"
      and k: "k \<in> set (ring f)" "k \<in> set q"
    by (auto simp: hop_ok_def)
  from keyed bid.hyps(2) have aid: "agent_id ag = k"
    by (simp add: keyed_by_id_def)
  from agent_forward_msg_Inr [OF bid.hyps(3) m] k(2) obtain c
    where m': "best m' = Val (if c < b then \<lparr>bid = Val c, holder = Val k\<rparr>
                        else \<lparr>bid = Val b, holder = h0\<rparr>)"
        "path m' = Val (''warehouse'' # q)"
    unfolding aid by auto
  from ir m(2) have "distinct q \<and> set q \<subseteq> set (ring f)"
    by (simp add: hop_in_ring_def)
  moreover from ir m(1) have "dict_get h0 = Some w \<Longrightarrow> w \<in> set (ring f)" for w
    by (simp add: hop_in_ring_def holder_of_def)
  ultimately have "hop_in_ring f m'"
    using k(1) by (simp add: hop_in_ring_def holder_of_def m')
  with bid.IH show ?case
    by simp
next
  case (relay s m tr p next_agent)
  from relay.IH have ir: "hop_in_ring f m"
    by simp
  then obtain q where q: "path m = Val (''warehouse'' # q)" "distinct q" "set q \<subseteq> set (ring f)"
    by (auto simp: hop_in_ring_def)
  from relay.hyps(2) q(1) have pq: "p = ''warehouse'' # q"
    by simp
  from find_next_in_ring_Some [OF relay.hyps(4)] pq
  have "next_agent \<in> set (ring f)" "next_agent \<notin> set q"
    by simp_all
  with ir q pq have "hop_in_ring f (m\<lparr>path := Val (p @ [next_agent])\<rparr>)"
    by (simp add: hop_in_ring_def holder_of_def)
  with relay.IH show ?case
    by simp
qed

lemma distinct_count_le_1: "distinct xs \<Longrightarrow> count_list xs a \<le> 1"
  by (induction xs) auto

text \<open>
  C8. In every \<^verbatim>\<open>FORWARD_ANNOUNCEMENT\<close> of a task's traversal the path is the
  \<^verbatim>\<open>"warehouse"\<close> sentinel followed by ring members without repetition, so every agent
  id of the ring appears at most once among them (and at most once in the whole path when
  no agent is called \<^verbatim>\<open>"warehouse"\<close>); and a holder, hence the winner when the traversal
  is complete, is a member of the ring. Agents are stored under their own ids.
\<close>

theorem ring_coverage:
  assumes tr: "traversal f ann tr" and mem: "(h, m) \<in> set tr" and keyed: "keyed_by_id f"
  shows "\<exists>q. path m = Val (''warehouse'' # q)
      \<and> distinct q \<and> set q \<subseteq> set (ring f)
      \<and> (\<forall>a \<in> set (ring f). count_list q a \<le> 1)
      \<and> (''warehouse'' \<notin> set (ring f) \<longrightarrow>
           (\<forall>a \<in> set (ring f). count_list (''warehouse'' # q) a \<le> 1))
      \<and> (\<forall>w. holder_of m = Some w \<longrightarrow> w \<in> set (ring f))"
proof -
  from traversal_in_ring [OF keyed tr] mem have ir: "hop_in_ring f m"
    by auto
  then obtain q where q: "path m = Val (''warehouse'' # q)" "distinct q" "set q \<subseteq> set (ring f)"
    by (auto simp: hop_in_ring_def)
  have c: "count_list q a \<le> 1" for a
    using q(2) by (rule distinct_count_le_1)
  have "count_list (''warehouse'' # q) a \<le> 1" if "''warehouse'' \<notin> set (ring f)" "a \<in> set (ring f)" for a
    using that c [of a] by auto
  with ir q c show ?thesis
    by (intro exI [of _ q]) (simp add: hop_in_ring_def)
qed


lemma traversal_over_capacity:
  assumes w: "dict_get_default (weight ann) 0 = Some w"
    and x: "agents f x = Some agx" and over: "load agx + w > capacity agx"
    and keyed: "keyed_by_id f"
  shows "traversal f ann tr \<Longrightarrow> \<forall>(h, m) \<in> set tr. holder_of m \<noteq> Some x"
proof (induction rule: traversal.induct)
  case (seed tid)
  show ?case
    by (simp add: ring_forward_msg_def empty_dict_def holder_of_def)
next
  case (bid k m tr ag cur m')
  from bid.IH have old: "holder_of m \<noteq> Some x"
    by simp
  from traversal_head_ok [OF bid.hyps(1)] w obtain b h0 q
    where m: "best m = Val \<lparr>bid = Val b, holder = h0\<rparr>" "path m = Val (''warehouse'' # q)"
      and b: "b \<le> VERY_HIGH_BID" and wm: "weight m = Val w"
    by (auto simp: hop_ok_def)
  from keyed bid.hyps(2) have aid: "agent_id ag = k"
    by (simp add: keyed_by_id_def)
  from agent_forward_msg_Inr [OF bid.hyps(3) m] wm obtain c
    where c: "compute_bid ag (bid_task_info m w) (bid_network_info cur) = Inr c"
      and m': "best m' = Val (if c < b then \<lparr>bid = Val c, holder = Val k\<rparr>
                        else \<lparr>bid = Val b, holder = h0\<rparr>)"
    unfolding aid by auto
  have "holder_of m' \<noteq> Some x"
  proof (cases "k = x")
    case True
    with bid.hyps(2) x have "ag = agx"
      by simp
    with over have "compute_bid ag (bid_task_info m w) (bid_network_info cur) = Inr VERY_HIGH_BID"
      by (intro compute_bid_over_capacity [of _ w]) (simp_all add: bid_task_info_def)
    with c b have "\<not> c < b"
      by simp
    with old m(1) show ?thesis
      by (simp add: holder_of_def m')
  next
    case False
    with old m(1) show ?thesis
      by (simp add: holder_of_def m')
  qed
  with bid.IH show ?case
    by simp
next
  case (relay s m tr p next_agent)
  from relay.IH have "holder_of m \<noteq> Some x"
    by simp
  then have "holder_of (m\<lparr>path := Val (p @ [next_agent])\<rparr>) \<noteq> Some x"
    by (simp add: holder_of_def)
  with relay.IH show ?case
    by simp
qed

text \<open>
  C5. For an agent with \<open>load + weight > capacity\<close>, \<^verbatim>\<open>compute_bid\<close> returns
  \<open>VERY_HIGH_BID\<close>, on the task and on the dictionary the agent passes when it handles
  a forward announcement of that task; and no \<^verbatim>\<open>FORWARD_ANNOUNCEMENT\<close> of the task's
  traversal names that agent as \<open>best.holder\<close>. Agents are stored under their own ids.
\<close>

theorem over_capacity_never_holder:
  assumes w: "dict_get_default (weight ann) 0 = Some w"
    and x: "agents f x = Some ag" and over: "load ag + w > capacity ag"
    and keyed: "keyed_by_id f"
    and tr: "traversal f ann tr" and mem: "(h, m) \<in> set tr"
  shows "compute_bid ag ann ni = Inr VERY_HIGH_BID
    \<and> compute_bid ag (bid_task_info m w) (bid_network_info cur) = Inr VERY_HIGH_BID
    \<and> holder_of m \<noteq> Some (agent_id ag)"
proof -
  from keyed x have "agent_id ag = x"
    by (simp add: keyed_by_id_def)
  moreover from traversal_over_capacity [OF w x over keyed tr] mem
  have "holder_of m \<noteq> Some x"
    by auto
  moreover from w over have "compute_bid ag ann ni = Inr VERY_HIGH_BID"
    by (rule compute_bid_over_capacity)
  moreover from over
  have "compute_bid ag (bid_task_info m w) (bid_network_info cur) = Inr VERY_HIGH_BID"
    by (intro compute_bid_over_capacity [of _ w]) (simp_all add: bid_task_info_def)
  ultimately show ?thesis
    by simp
qed

text \<open>Both messages carry a bid, and the later one's is not above the earlier one's.\<close>

definition bid_le :: "hop \<times> message \<Rightarrow> hop \<times> message \<Rightarrow> bool" where
  "bid_le later earlier \<longleftrightarrow>
     (\<exists>b' b. bid_of (snd later) = Some b' \<and> bid_of (snd earlier) = Some b \<and> b' \<le> b)"

lemma bid_le_trans: "bid_le x y \<Longrightarrow> bid_le y z \<Longrightarrow> bid_le x z"
  by (auto simp: bid_le_def)

lemma sorted_wrt_bid_le_Cons:
  assumes "sorted_wrt bid_le (y # tr)" and "bid_le x y"
  shows "sorted_wrt bid_le (x # y # tr)"
  using assms by (auto intro: bid_le_trans)

lemma traversal_bid_sorted: "traversal f ann tr \<Longrightarrow> sorted_wrt bid_le tr"
proof (induction rule: traversal.induct)
  case (seed tid)
  show ?case by simp
next
  case (bid k m tr ag cur m')
  from traversal_head_ok [OF bid.hyps(1)] obtain b h0 q
    where m: "best m = Val \<lparr>bid = Val b, holder = h0\<rparr>" "path m = Val (''warehouse'' # q)"
    by (auto simp: hop_ok_def)
  from agent_forward_msg_Inr [OF bid.hyps(3) m] obtain c
    where "best m' = Val (if c < b then \<lparr>bid = Val c, holder = Val (agent_id ag)\<rparr>
                        else \<lparr>bid = Val b, holder = h0\<rparr>)"
    by auto
  with m(1) have "bid_le (FromAgent (agent_id ag), m') (ToAgent k, m)"
    by (simp add: bid_le_def bid_of_def)
  with bid.IH show ?case
    by (rule sorted_wrt_bid_le_Cons)
next
  case (relay s m tr p next_agent)
  from traversal_head_ok [OF relay.hyps(1)] obtain b h0
    where "best m = Val \<lparr>bid = Val b, holder = h0\<rparr>"
    by (auto simp: hop_ok_def)
  then have "bid_le (ToAgent next_agent, m\<lparr>path := Val (p @ [next_agent])\<rparr>) (FromAgent s, m)"
    by (simp add: bid_le_def bid_of_def)
  with relay.IH show ?case
    by (rule sorted_wrt_bid_le_Cons)
qed

text \<open>
  The agent stored under \<open>k\<close>, with id \<open>s\<close>, turns \<open>m\<close> into \<open>m'\<close>: \<open>best\<close> is
  replaced by the agent's bid and id when the bid it computes is strictly below the
  bid of \<open>m\<close>, and is kept as it is otherwise.
\<close>

definition bid_step :: "mesh \<Rightarrow> string \<Rightarrow> message \<Rightarrow> string \<Rightarrow> message \<Rightarrow> bool" where
  "bid_step f k m s m' \<longleftrightarrow>
     (\<exists>ag cur w c b h0. agents f k = Some ag \<and> agent_id ag = s
        \<and> dict_get_default (weight m) 0 = Some w
        \<and> compute_bid ag (bid_task_info m w) (bid_network_info cur) = Inr c
        \<and> best m = Val \<lparr>bid = Val b, holder = h0\<rparr>
        \<and> best m' = Val (if c < b then \<lparr>bid = Val c, holder = Val s\<rparr>
                          else \<lparr>bid = Val b, holder = h0\<rparr>))"

lemma traversal_bid_step:
  "traversal f ann tr \<Longrightarrow> tr = pre @ (FromAgent s, m') # (ToAgent k, m) # rest
   \<Longrightarrow> bid_step f k m s m'"
proof (induction arbitrary: pre rule: traversal.induct)
  case (seed tid)
  then show ?case
    by (simp add: Cons_eq_append_conv)
next
  case (bid k0 m0 tr ag cur m0')
  show ?case
  proof (cases pre)
    case Nil
    with bid.prems have eq: "s = agent_id ag" "m' = m0'" "k = k0" "m = m0"
      by simp_all
    from traversal_head_ok [OF bid.hyps(1)] obtain b h0 q
      where m: "best m0 = Val \<lparr>bid = Val b, holder = h0\<rparr>" "path m0 = Val (''warehouse'' # q)"
      by (auto simp: hop_ok_def)
    from agent_forward_msg_Inr [OF bid.hyps(3) m] bid.hyps(2) m(1) show ?thesis
      unfolding bid_step_def eq by blast
  next
    case (Cons x pre')
    with bid.prems have "(ToAgent k0, m0) # tr = pre' @ (FromAgent s, m') # (ToAgent k, m) # rest"
      by simp
    then show ?thesis
      by (rule bid.IH)
  qed
next
  case (relay s0 m0 tr p next_agent)
  show ?case
  proof (cases pre)
    case Nil
    with relay.prems show ?thesis
      by simp
  next
    case (Cons x pre')
    with relay.prems have "(FromAgent s0, m0) # tr = pre' @ (FromAgent s, m') # (ToAgent k, m) # rest"
      by simp
    then show ?thesis
      by (rule relay.IH)
  qed
qed

lemma traversal_relay_step:
  "traversal f ann tr \<Longrightarrow> tr = pre @ (ToAgent k, m') # (FromAgent s, m) # rest
   \<Longrightarrow> best m' = best m"
proof (induction arbitrary: pre rule: traversal.induct)
  case (seed tid)
  then show ?case
    by (simp add: Cons_eq_append_conv)
next
  case (bid k0 m0 tr ag cur m0')
  show ?case
  proof (cases pre)
    case Nil
    with bid.prems show ?thesis
      by simp
  next
    case (Cons x pre')
    with bid.prems have "(ToAgent k0, m0) # tr = pre' @ (ToAgent k, m') # (FromAgent s, m) # rest"
      by simp
    then show ?thesis
      by (rule bid.IH)
  qed
next
  case (relay s0 m0 tr p next_agent)
  show ?case
  proof (cases pre)
    case Nil
    with relay.prems show ?thesis
      by auto
  next
    case (Cons x pre')
    with relay.prems have "(FromAgent s0, m0) # tr = pre' @ (ToAgent k, m') # (FromAgent s, m) # rest"
      by simp
    then show ?thesis
      by (rule relay.IH)
  qed
qed

text \<open>
  C6. Along the \<^verbatim>\<open>FORWARD_ANNOUNCEMENT\<close>s of one task, \<open>best.bid\<close> never increases:
  of any two messages of the traversal the later one carries a bid that is at most the
  earlier one's. Each agent replaces \<open>best\<close> with its own bid and id exactly when its
  computed bid is strictly below the message's bid (an equal bid keeps the incumbent),
  and the fabric forwards \<open>best\<close> unchanged.
\<close>

theorem best_bid_monotone:
  assumes "traversal f ann tr"
  shows "sorted_wrt bid_le tr
    \<and> (\<forall>pre s m' k m rest. tr = pre @ (FromAgent s, m') # (ToAgent k, m) # rest
          \<longrightarrow> bid_step f k m s m')
    \<and> (\<forall>pre k m' s m rest. tr = pre @ (ToAgent k, m') # (FromAgent s, m) # rest
          \<longrightarrow> best m' = best m)"
  using traversal_bid_sorted [OF assms] traversal_bid_step [OF assms]
    traversal_relay_step [OF assms]
  by blast


subsection \<open>A traversal of two agents\<close>

text \<open>
  Task \<open>T1\<close> of weight 3 on the ring \<open>[A, B]\<close>, where \<open>B\<close> has capacity 2: \<open>A\<close> bids
  100 and becomes holder, \<open>B\<close> is over capacity and leaves the message as it is.
\<close>

definition task_T1 :: message where
  "task_T1 = empty_dict\<lparr>message_type := Val ''TASK_ANNOUNCEMENT'', task_id := Val ''T1'',
     pickup := Val ''e1'', delivery := Val ''e2'', weight := Val 3\<rparr>"

definition small_B :: agent where
  "small_B = agent_init ''B'' 2 100"

definition fleet_A_smallB :: mesh where
  "fleet_A_smallB = mesh_init [(''A'', agent_init ''A'' 10 100), (''B'', small_B)]"

definition fwd_to_A :: message where
  "fwd_to_A = empty_dict\<lparr>message_type := Val ''FORWARD_ANNOUNCEMENT'', task_id := Val ''T1'',
     pickup := Val ''e1'', delivery := Val ''e2'', weight := Val 3,
     path := Val [''warehouse'', ''A''],
     best := Val \<lparr>bid = Val VERY_HIGH_BID, holder = Null\<rparr>\<rparr>"

definition fwd_from_A :: message where
  "fwd_from_A = fwd_to_A\<lparr>best := Val \<lparr>bid = Val 100, holder = Val ''A''\<rparr>\<rparr>"

definition fwd_to_B :: message where
  "fwd_to_B = fwd_from_A\<lparr>path := Val [''warehouse'', ''A'', ''B'']\<rparr>"

definition two_agent_trace :: "(hop \<times> message) list" where
  "two_agent_trace = [(FromAgent ''B'', fwd_to_B), (ToAgent ''B'', fwd_to_B),
     (FromAgent ''A'', fwd_from_A), (ToAgent ''A'', fwd_to_A)]"

lemma keyed_fleet_A_smallB: "keyed_by_id fleet_A_smallB"
  by (simp add: keyed_by_id_def fleet_A_smallB_def mesh_init_def small_B_def agent_init_def)

lemma bid_of_A: "compute_bid (agent_init ''A'' 10 100) (bid_task_info fwd_to_A 3) (bid_network_info 0) = Inr 100"
  by (simp add: compute_bid_def bid_task_info_def bid_network_info_def empty_dict_def
      agent_init_def has_capacity_def calculate_base_cost_def VERY_HIGH_BID_def
      calculate_priority_multiplier_def calculate_capacity_penalty_def
      calculate_time_penalty_def)

lemma forward_by_A: "agent_forward_msg (agent_init ''A'' 10 100) fwd_to_A 0 = Inr fwd_from_A"
proof -
  have "agent_id (agent_init ''A'' 10 100) = ''A''"
    by (simp add: agent_init_def)
  moreover have "weight fwd_to_A = Val 3" "path fwd_to_A = Val [''warehouse'', ''A'']"
    "best fwd_to_A = Val \<lparr>bid = Val VERY_HIGH_BID, holder = Null\<rparr>"
    "task_id fwd_to_A = Val ''T1''" "pickup fwd_to_A = Val ''e1''" "delivery fwd_to_A = Val ''e2''"
    by (simp_all add: fwd_to_A_def empty_dict_def)
  moreover have "(100::real) < VERY_HIGH_BID"
    by (simp add: VERY_HIGH_BID_def)
  ultimately show ?thesis
    by (simp add: agent_forward_msg_def bid_of_A Let_def)
       (simp add: fwd_from_A_def fwd_to_A_def empty_dict_def)
qed

lemma bid_of_B: "compute_bid small_B (bid_task_info fwd_to_B 3) (bid_network_info 1) = Inr VERY_HIGH_BID"
  by (simp add: compute_bid_def bid_task_info_def small_B_def agent_init_def has_capacity_def)

lemma forward_by_B: "agent_forward_msg small_B fwd_to_B 1 = Inr fwd_to_B"
proof -
  have "agent_id small_B = ''B''"
    by (simp add: small_B_def agent_init_def)
  moreover have "weight fwd_to_B = Val 3" "path fwd_to_B = Val [''warehouse'', ''A'', ''B'']"
    "best fwd_to_B = Val \<lparr>bid = Val 100, holder = Val ''A''\<rparr>"
    "task_id fwd_to_B = Val ''T1''" "pickup fwd_to_B = Val ''e1''" "delivery fwd_to_B = Val ''e2''"
    by (simp_all add: fwd_to_B_def fwd_from_A_def fwd_to_A_def empty_dict_def)
  moreover have "\<not> VERY_HIGH_BID < (100::real)"
    by (simp add: VERY_HIGH_BID_def)
  ultimately show ?thesis
    by (simp add: agent_forward_msg_def bid_of_B Let_def)
       (simp add: fwd_to_B_def fwd_from_A_def fwd_to_A_def empty_dict_def)
qed

lemma two_agent_traversal: "traversal fleet_A_smallB task_T1 two_agent_trace"
proof -
  have r: "ring fleet_A_smallB = [''A'', ''B'']"
    and a: "agents fleet_A_smallB ''A'' = Some (agent_init ''A'' 10 100)"
    and b: "agents fleet_A_smallB ''B'' = Some small_B"
    by (simp_all add: fleet_A_smallB_def mesh_init_def)
  have "dict_get_default (task_id task_T1) [] = Some ''T1''" "\<not> startswith ''T1'' ''SOD-''"
    "ring fleet_A_smallB \<noteq> []"
    by (simp_all add: task_T1_def empty_dict_def startswith_def r)
  then have "traversal fleet_A_smallB task_T1
      [(ToAgent (ring fleet_A_smallB ! 0), ring_forward_msg task_T1 (ring fleet_A_smallB ! 0))]"
    by (rule traversal.seed)
  moreover have "ring_forward_msg task_T1 ''A'' = fwd_to_A"
    by (simp add: ring_forward_msg_def task_T1_def fwd_to_A_def empty_dict_def)
  ultimately have t0: "traversal fleet_A_smallB task_T1 [(ToAgent ''A'', fwd_to_A)]"
    by (simp add: r)
  from traversal.bid [OF t0 a forward_by_A]
  have t1: "traversal fleet_A_smallB task_T1 [(FromAgent ''A'', fwd_from_A), (ToAgent ''A'', fwd_to_A)]"
    by (simp add: agent_init_def)
  have p: "dict_get_default (path fwd_from_A) [] = Some [''warehouse'', ''A'']"
    by (simp add: fwd_from_A_def fwd_to_A_def empty_dict_def)
  have n: "find_next_in_ring (ring fleet_A_smallB) (last [''warehouse'', ''A'']) [''warehouse'', ''A'']
      = Some ''B''"
    by (simp add: r find_next_in_ring_def upt_rec)
  from traversal.relay [OF t1 p _ n]
  have t2: "traversal fleet_A_smallB task_T1
      [(ToAgent ''B'', fwd_to_B), (FromAgent ''A'', fwd_from_A), (ToAgent ''A'', fwd_to_A)]"
    by (simp add: fwd_to_B_def)
  from traversal.bid [OF t2 b forward_by_B] show ?thesis
    by (simp add: two_agent_trace_def small_B_def agent_init_def)
qed

theorem over_capacity_never_holder_witness:
  "load small_B + 3 > capacity small_B
    \<and> compute_bid small_B task_T1 (bid_network_info 1) = Inr VERY_HIGH_BID
    \<and> holder_of fwd_to_B = Some ''A''
    \<and> holder_of fwd_to_B \<noteq> Some (agent_id small_B)"
proof -
  have w: "dict_get_default (weight task_T1) 0 = Some 3"
    by (simp add: task_T1_def empty_dict_def)
  have x: "agents fleet_A_smallB ''B'' = Some small_B"
    by (simp add: fleet_A_smallB_def mesh_init_def)
  have over: "load small_B + 3 > capacity small_B"
    by (simp add: small_B_def agent_init_def)
  have mem: "(FromAgent ''B'', fwd_to_B) \<in> set two_agent_trace"
    by (simp add: two_agent_trace_def)
  have "holder_of fwd_to_B = Some ''A''"
    by (simp add: holder_of_def fwd_to_B_def fwd_from_A_def)
  with over_capacity_never_holder [OF w x over keyed_fleet_A_smallB two_agent_traversal mem,
      of "bid_network_info 1" 1] over
  show ?thesis
    by simp
qed

theorem best_bid_monotone_witness:
  "sorted_wrt bid_le two_agent_trace
    \<and> map (\<lambda>hm. bid_of (snd hm)) two_agent_trace = [Some 100, Some 100, Some 100, Some VERY_HIGH_BID]
    \<and> bid_step fleet_A_smallB ''A'' fwd_to_A ''A'' fwd_from_A
    \<and> bid_step fleet_A_smallB ''B'' fwd_to_B ''B'' fwd_to_B"
proof -
  note m = best_bid_monotone [OF two_agent_traversal]
  have "two_agent_trace = [(FromAgent ''B'', fwd_to_B), (ToAgent ''B'', fwd_to_B)]
      @ (FromAgent ''A'', fwd_from_A) # (ToAgent ''A'', fwd_to_A) # []"
    "two_agent_trace = [] @ (FromAgent ''B'', fwd_to_B) # (ToAgent ''B'', fwd_to_B)
      # [(FromAgent ''A'', fwd_from_A), (ToAgent ''A'', fwd_to_A)]"
    by (simp_all add: two_agent_trace_def)
  with m have "bid_step fleet_A_smallB ''A'' fwd_to_A ''A'' fwd_from_A"
    "bid_step fleet_A_smallB ''B'' fwd_to_B ''B'' fwd_to_B"
    by blast+
  moreover have "map (\<lambda>hm. bid_of (snd hm)) two_agent_trace
      = [Some 100, Some 100, Some 100, Some VERY_HIGH_BID]"
    by (simp add: two_agent_trace_def bid_of_def fwd_to_B_def fwd_from_A_def fwd_to_A_def
        empty_dict_def)
  ultimately show ?thesis
    using m by simp
qed

theorem ring_coverage_witness:
  "path fwd_to_B = Val [''warehouse'', ''A'', ''B'']
    \<and> (\<exists>q. path fwd_to_B = Val (''warehouse'' # q) \<and> distinct q
          \<and> set q \<subseteq> set (ring fleet_A_smallB))
    \<and> holder_of fwd_to_B = Some ''A'' \<and> ''A'' \<in> set (ring fleet_A_smallB)"
proof -
  have mem: "(FromAgent ''B'', fwd_to_B) \<in> set two_agent_trace"
    by (simp add: two_agent_trace_def)
  have h: "holder_of fwd_to_B = Some ''A''"
    by (simp add: holder_of_def fwd_to_B_def fwd_from_A_def)
  have p: "path fwd_to_B = Val [''warehouse'', ''A'', ''B'']"
    by (simp add: fwd_to_B_def)
  from ring_coverage [OF two_agent_traversal mem keyed_fleet_A_smallB] h p show ?thesis
    by auto
qed

section \<open>Delivery of the winner decision\<close>

text \<open>
  When the holder is the last entry of the path, the route is \<open>[holder]\<close> and the
  delivery loop of \<^verbatim>\<open>_start_backtrace\<close> has nothing to run over: the fabric is left
  as it was, and nobody receives the decision.
\<close>

lemma list_index_append:
  "w \<notin> set pre \<Longrightarrow> list_index (pre @ w # suf) w = Some (length pre)"
  by (induction pre) auto

lemma backtrace_last_holder_silent:
  assumes "best msg = Val bst" and "holder bst = Val w"
    and "path msg = Val (pre @ [w])" and "w \<notin> set pre"
  shows "start_backtrace msg cur f = Inr f"
proof -
  from assms(4) have "backtrace_path w (pre @ [w]) = [w]"
    by (simp add: backtrace_path_def list_index_append)
  with assms(1-3) show ?thesis
    by (simp add: start_backtrace_def)
qed

text \<open>
  The rest of \<^verbatim>\<open>_start_backtrace\<close> does deliver as intended: without a holder the
  fabric is left as it was, and with a holder anywhere but at the end of a path without
  repetition the winner's inbox grows by exactly the one decision.
\<close>

lemma no_holder_no_decision:
  assumes "best msg = Val bst" and "dict_get (holder bst) = None \<or> dict_get (holder bst) = Some []"
  shows "start_backtrace msg cur f = Inr f"
  using assms by (auto simp: start_backtrace_def)

lemma deliver_to_agents:
  assumes "message_type m \<noteq> Absent"
  shows "agents (deliver_to r m f) k
      = (if r = k then map_option (\<lambda>ag. ag\<lparr>inbox := inbox ag @ [m]\<rparr>) (agents f k)
         else agents f k)"
  using assms by (simp add: deliver_to_def receive_def split: option.splits)

lemma fold_deliver_to_agents:
  assumes "message_type m \<noteq> Absent"
  shows "agents (fold (\<lambda>r. deliver_to r m) rs f) k
      = map_option (\<lambda>ag. ag\<lparr>inbox := inbox ag @ replicate (count_list rs k) m\<rparr>) (agents f k)"
proof (induction rs arbitrary: f)
  case Nil
  show ?case
    by (cases "agents f k") simp_all
next
  case (Cons r rs)
  show ?case
    by (cases "agents f k")
       (simp_all add: Cons.IH deliver_to_agents [OF assms] replicate_append_same)
qed

lemma winner_notified_unless_last:
  assumes b: "best msg = Val bst" and h: "holder bst = Val w" "w \<noteq> []"
    and p: "path msg = Val (pre @ w # suf)" and d: "distinct (pre @ w # suf)"
    and ag: "agents f w = Some ag"
  shows "\<exists>f'. start_backtrace msg cur f = Inr f'
      \<and> map_option inbox (agents f' w)
          = Some (inbox ag @ (if suf = [] then []
                              else [backtrace_winner_msg msg bst w (rev suf @ [w])]))"
proof -
  from d have w: "w \<notin> set pre" "w \<notin> set suf"
    by auto
  then have route: "backtrace_path w (pre @ w # suf) = rev suf @ [w]"
    by (simp add: backtrace_path_def list_index_append)
  let ?wm = "backtrace_winner_msg msg bst w (rev suf @ [w])"
  have t: "message_type ?wm \<noteq> Absent"
    by (simp add: backtrace_winner_msg_def)
  have s: "start_backtrace msg cur f
      = Inr (fold (\<lambda>receiver. deliver_to receiver ?wm) (tl (rev suf @ [w])) f)"
    using b h p by (simp add: start_backtrace_def route Let_def)
  have c: "count_list (tl (rev suf @ [w])) w = (if suf = [] then 0 else 1)"
  proof (cases "suf = []")
    case True
    then show ?thesis by simp
  next
    case False
    then have "tl (rev suf @ [w]) = tl (rev suf) @ [w]"
      by simp
    moreover from w(2) have "w \<notin> set (tl (rev suf))"
      by (metis list.sel(2) list.set_sel(2) set_rev)
    ultimately show ?thesis
      using False by simp
  qed
  show ?thesis
    unfolding s
    by (intro exI [of _ "fold (\<lambda>receiver. deliver_to receiver ?wm) (tl (rev suf @ [w])) f"])
       (simp add: fold_deliver_to_agents [OF t] ag c)
qed

text \<open>
  A fleet of one vehicle, built by the constructors, and the run of one task through the
  entry points of the two classes: the warehouse sends the announcement, the fabric
  delivers, the agent processes its inbox, the fabric delivers again, the agent processes
  its inbox again.
\<close>

definition single_fleet :: mesh where
  "single_fleet = mesh_init [(''A'', agent_init ''A'' 10 100)]"

definition announced :: mesh where
  "announced = send ''warehouse'' (Dict task_T1) (Some 0) single_fleet"

definition seeded :: mesh where
  "seeded = fst (deliver_messages 0 announced)"

definition bid_sent :: mesh where
  "bid_sent = fst (run_agent ''A'' 0 seeded)"

definition completed :: mesh where
  "completed = fst (deliver_messages 1 bid_sent)"

definition settled :: mesh where
  "settled = fst (run_agent ''A'' 1 completed)"

lemma announced_eq:
  "announced = \<lparr>agents = [''A'' \<mapsto> agent_init ''A'' 10 100], ring = [''A''],
     message_queue = [(''warehouse'', task_T1, Some 0)], sod_assign_index = 0\<rparr>"
  by (simp add: announced_def single_fleet_def mesh_init_def send_def task_T1_def empty_dict_def)

lemma seeded_eq:
  "seeded = \<lparr>agents = [''A'' \<mapsto> (agent_init ''A'' 10 100)\<lparr>inbox := [fwd_to_A]\<rparr>], ring = [''A''],
     message_queue = [], sod_assign_index = 0\<rparr>"
proof -
  have "ring_forward_msg task_T1 ''A'' = fwd_to_A"
    by (simp add: ring_forward_msg_def task_T1_def fwd_to_A_def empty_dict_def)
  moreover have "message_type task_T1 = Val ''TASK_ANNOUNCEMENT''"
    "dict_get_default (task_id task_T1) [] = Some ''T1''" "\<not> startswith ''T1'' ''SOD-''"
    "message_type fwd_to_A \<noteq> Absent"
    by (simp_all add: task_T1_def fwd_to_A_def empty_dict_def startswith_def)
  ultimately show ?thesis
    by (simp add: seeded_def announced_eq dispatch_seeds_traversal deliver_to_def receive_def
        agent_init_def)
qed

lemma bid_sent_eq:
  "bid_sent = \<lparr>agents = [''A'' \<mapsto> agent_init ''A'' 10 100], ring = [''A''],
     message_queue = [(''A'', fwd_from_A, Some 0)], sod_assign_index = 0\<rparr>"
proof -
  let ?a = "agent_init ''A'' 10 100"
  let ?g = "\<lparr>agents = [''A'' \<mapsto> ?a\<lparr>inbox := [fwd_to_A]\<rparr>], ring = [''A''],
     message_queue = [], sod_assign_index = 0\<rparr>"
  have t: "message_type fwd_to_A = Val ''FORWARD_ANNOUNCEMENT''"
    by (simp add: fwd_to_A_def empty_dict_def)
  have a: "?a\<lparr>inbox := []\<rparr> = ?a" "agent_id ?a = ''A''"
    by (simp_all add: agent_init_def)
  have "handle_message fwd_to_A 0 ?a ?g = Inr (?a, send (agent_id ?a) (Dict fwd_from_A) (Some 0) ?g)"
    using t forward_by_A by (rule agent_bid_step)
  moreover have "send ''A'' (Dict fwd_from_A) (Some 0) ?g = ?g\<lparr>message_queue := [(''A'', fwd_from_A, Some 0)]\<rparr>"
    by (simp add: send_def fwd_from_A_def fwd_to_A_def empty_dict_def)
  ultimately have hm: "handle_message fwd_to_A 0 ?a ?g
      = Inr (?a, ?g\<lparr>message_queue := [(''A'', fwd_from_A, Some 0)]\<rparr>)"
    by (simp add: a)
  have e: "inbox ?a = []"
    by (simp add: agent_init_def)
  have "process_messages 0 (?a\<lparr>inbox := [fwd_to_A]\<rparr>) ?g
      = ((?a, ?g\<lparr>message_queue := [(''A'', fwd_from_A, Some 0)]\<rparr>), None)"
    by (subst process_messages.simps) (simp add: Let_def a hm e)
  then show ?thesis
    by (simp add: bid_sent_def seeded_eq run_agent_def)
qed

lemma completed_eq:
  "deliver_messages 1 bid_sent
    = (\<lparr>agents = [''A'' \<mapsto> agent_init ''A'' 10 100], ring = [''A''],
        message_queue = [], sod_assign_index = 0\<rparr>, None)"
proof -
  let ?g = "\<lparr>agents = [''A'' \<mapsto> agent_init ''A'' 10 100], ring = [''A''],
        message_queue = [], sod_assign_index = 0\<rparr>"
  have m: "message_type fwd_from_A = Val ''FORWARD_ANNOUNCEMENT''"
    "dict_get_default (path fwd_from_A) [] = Some [''warehouse'', ''A'']"
    "best fwd_from_A = Val \<lparr>bid = Val 100, holder = Val ''A''\<rparr>"
    "path fwd_from_A = Val [''warehouse'', ''A'']"
    by (simp_all add: fwd_from_A_def fwd_to_A_def empty_dict_def)
  have n: "find_next_in_ring [''A''] ''A'' [''warehouse'', ''A''] = None"
    by (simp add: find_next_in_ring_def)
  have "process_message ''A'' fwd_from_A 0 ?g = start_backtrace fwd_from_A 0 ?g"
    by (rule dispatch_completes [OF m(1) m(2)]) (simp_all add: n)
  moreover have "backtrace_path ''A'' [''warehouse'', ''A''] = [''A'']"
    by (simp add: backtrace_path_def)
  ultimately have "process_message ''A'' fwd_from_A 0 ?g = Inr ?g"
    by (simp add: start_backtrace_def m)
  then show ?thesis
    by (subst deliver_messages.simps) (simp add: bid_sent_eq)
qed

text \<open>
  C1 at a fleet of one vehicle. The agent's forward announcement names it as holder and
  the ring is fully visited, so the traversal is complete with a holder present. The
  second delivery raises nothing and empties the queue, yet the inbox of the winner stays
  empty and the task is never assigned: the decision is built and delivered to nobody.
\<close>

theorem last_holder_never_notified:
  "map (\<lambda>(sender, m, t). (message_type m, holder_of m, path m)) (message_queue bid_sent)
      = [(Val ''FORWARD_ANNOUNCEMENT'', Some ''A'', Val [''warehouse'', ''A''])]
    \<and> find_next_in_ring (ring bid_sent) ''A'' [''warehouse'', ''A''] = None
    \<and> snd (deliver_messages 1 bid_sent) = None
    \<and> message_queue completed = []
    \<and> map_option inbox (agents completed ''A'') = Some []
    \<and> map_option assigned_tasks (agents settled ''A'') = Some []"
proof -
  have c: "completed = \<lparr>agents = [''A'' \<mapsto> agent_init ''A'' 10 100], ring = [''A''],
        message_queue = [], sod_assign_index = 0\<rparr>"
    unfolding completed_def completed_eq by simp
  have i: "inbox (agent_init ''A'' 10 100) = []" "assigned_tasks (agent_init ''A'' 10 100) = []"
    by (simp_all add: agent_init_def)
  have s: "settled = completed"
    by (simp add: settled_def c run_agent_def i)
  have q: "map (\<lambda>(sender, m, t). (message_type m, holder_of m, path m)) (message_queue bid_sent)
      = [(Val ''FORWARD_ANNOUNCEMENT'', Some ''A'', Val [''warehouse'', ''A''])]"
    by (simp add: bid_sent_eq holder_of_def fwd_from_A_def fwd_to_A_def empty_dict_def)
  have n: "find_next_in_ring (ring bid_sent) ''A'' [''warehouse'', ''A''] = None"
    by (simp add: bid_sent_eq find_next_in_ring_def)
  have e: "snd (deliver_messages 1 bid_sent) = None"
    unfolding completed_eq by simp
  show ?thesis
    unfolding s by (simp add: q n e c i del: deliver_messages.simps)
qed

end
